theory Spec2Isabelle
  imports Complex_Main
begin

section \<open>The PRESTO time-series reader of \<^verbatim>\<open>formats/datfile.py\<close>\<close>

text \<open>
  The reader keeps a sample counter, two clocks (the time really consumed and the time
  the caller asked for) and an open file. Python floats are read as real numbers, so
  every sum and product below is exact; Python's unbounded integers are \<open>int\<close>.
  The stored samples are opaque values of a type \<open>'a\<close>.
\<close>

subsection \<open>Errors\<close>

text \<open>
  One constructor for each way a call of this file ends in an exception.
  \<^item> \<open>TypeError\<close>: the statement \<^verbatim>\<open>raise "..."\<close> of the constructor. A string is
    not an exception, and Python answers the attempt to raise one with a \<open>TypeError\<close>.
  \<^item> \<open>NotImplementedError\<close>: raised by \<^verbatim>\<open>pulses\<close> when there is no epoch.
  \<^item> \<open>IOError\<close>: a file that cannot be opened, and a seek to a negative offset.
  \<^item> \<open>ZeroDivisionError\<close>: the float division by a sample interval of zero.
  \<^item> \<open>AttributeError\<close>: reading an attribute the metadata object does not have.
  \<^item> \<open>UnboundLocalError\<close>: \<^verbatim>\<open>iend\<close> read in \<^verbatim>\<open>get_baseline_spline\<close> before
    any block was read.
\<close>

datatype py_error =
    TypeError
  | NotImplementedError
  | IOError
  | ZeroDivisionError
  | AttributeError
  | UnboundLocalError

subsection \<open>Metadata\<close>

text \<open>
  The object built by the external \<^verbatim>\<open>infodata\<close> module, with the attributes this
  file reads. \<^verbatim>\<open>hasattr(inf, 'epoch')\<close> is \<open>inf_epoch inf \<noteq> None\<close>. The attribute
  \<^verbatim>\<open>tepoch\<close>, which one branch of \<^verbatim>\<open>correct_infdata\<close> updates, is optional too.
\<close>

record infodata =
  inf_N :: int
  inf_dt :: real
  inf_epoch :: "real option"
  inf_tepoch :: "real option"
  inf_telescope :: string
  inf_instrument :: string
  inf_lofreq :: real
  inf_chan_width :: real
  inf_BW :: real
  inf_DM :: real

text \<open>\<^verbatim>\<open>psr_utils.SECPERDAY\<close>, a constant of the external PRESTO module.\<close>

definition SECPERDAY :: real where
  "SECPERDAY = 86400"

subsection \<open>Reader state\<close>

text \<open>
  \<open>datfile\<close> is the content of the open file and \<open>fpos\<close> its position, counted in
  samples (the byte offset is \<open>bytes_per_sample\<close> times it: every seek of this file is
  to a multiple of the sample size). \<open>currmjd_actual\<close> and \<open>currmjd_desired\<close> exist
  in Python only when the metadata has an epoch; no method reads or writes them
  otherwise.
\<close>

record 'a Datfile =
  datfn :: string
  basefn :: string
  inffn :: string
  bytes_per_sample :: nat
  infdata :: infodata
  datfile :: "'a list"
  fpos :: nat
  currsample :: int
  currtime_actual :: real
  currtime_desired :: real
  currmjd_actual :: real
  currmjd_desired :: real

definition has_epoch :: "'a Datfile \<Rightarrow> bool" where
  "has_epoch st = (inf_epoch (infdata st) \<noteq> None)"

subsection \<open>Library functions the reader calls\<close>

text \<open>
  \<^verbatim>\<open>np.round\<close> rounds to the nearest integer, and a tie to the even neighbour.
\<close>

definition np_round :: "real \<Rightarrow> int" where
  "np_round x =
     (let f = \<lfloor>x\<rfloor>; d = x - of_int f
      in if d < 1 / 2 then f
         else if 1 / 2 < d then f + 1
         else if even f then f else f + 1)"

text \<open>
  \<^verbatim>\<open>np.fromfile(f, count=n)\<close> reads \<open>n\<close> items from the position of \<open>f\<close>, fewer when
  the file ends first, and everything that is left when \<open>n\<close> is negative. The position
  moves past what was read.
\<close>

definition fromfile :: "int \<Rightarrow> 'a Datfile \<Rightarrow> 'a list \<times> 'a Datfile" where
  "fromfile n st =
     (let rest = drop (fpos st) (datfile st);
          blk = (if n < 0 then rest else take (nat n) rest)
      in (blk, st\<lparr>fpos := fpos st + length blk\<rparr>))"

subsection \<open>Private methods\<close>

text \<open>\<^verbatim>\<open>Datfile.__read\<close>: \<open>None\<close> is Python's \<^verbatim>\<open>None\<close>.\<close>

definition Datfile_read :: "int \<Rightarrow> 'a Datfile \<Rightarrow> 'a list option \<times> 'a Datfile" where
  "Datfile_read n st =
     (let new_curr_sample = currsample st + n
      in if new_curr_sample > inf_N (infdata st) then (None, st)
         else
           let st1 = st\<lparr>currsample := new_curr_sample\<rparr>;
               st2 = (if has_epoch st1
                      then st1\<lparr>currmjd_actual :=
                             currmjd_actual st1 + inf_dt (infdata st1) * of_int n / SECPERDAY\<rparr>
                      else st1);
               st3 = st2\<lparr>currtime_actual :=
                          currtime_actual st2 + inf_dt (infdata st2) * of_int n\<rparr>;
               (blk, st4) = fromfile n st3
           in (Some blk, st4))"

text \<open>
  \<^verbatim>\<open>Datfile.__seek\<close>: the file refuses a negative offset before any attribute is
  assigned.
\<close>

definition Datfile_seek :: "int \<Rightarrow> 'a Datfile \<Rightarrow> (py_error + unit) \<times> 'a Datfile" where
  "Datfile_seek n st =
     (if n < 0 then (Inl IOError, st)
      else
        let st1 = st\<lparr>fpos := nat n\<rparr>;
            st2 = st1\<lparr>currsample := n\<rparr>;
            st3 = (if has_epoch st2
                   then st2\<lparr>currmjd_actual := inf_dt (infdata st2) * of_int n / SECPERDAY\<rparr>
                   else st2);
            st4 = st3\<lparr>currtime_actual := inf_dt (infdata st3) * of_int n\<rparr>
        in (Inr (), st4))"

text \<open>\<^verbatim>\<open>Datfile.__update_desired_time\<close>\<close>

definition Datfile_update_desired_time :: "real \<Rightarrow> 'a Datfile \<Rightarrow> 'a Datfile" where
  "Datfile_update_desired_time T st =
     (let st1 = st\<lparr>currtime_desired := currtime_desired st + T\<rparr>
      in if has_epoch st1
         then st1\<lparr>currmjd_desired := currmjd_desired st1 + T / SECPERDAY\<rparr>
         else st1)"

subsection \<open>Public methods\<close>

definition rewind :: "'a Datfile \<Rightarrow> 'a Datfile" where
  "rewind st =
     (let st1 = st\<lparr>fpos := 0\<rparr>;
          st2 = st1\<lparr>currsample := 0\<rparr>;
          st3 = st2\<lparr>currtime_actual := 0\<rparr>;
          st4 = st3\<lparr>currtime_desired := 0\<rparr>
      in case inf_epoch (infdata st4) of
           None \<Rightarrow> st4
         | Some e \<Rightarrow> st4\<lparr>currmjd_actual := e, currmjd_desired := e\<rparr>)"

definition read_Nsamples :: "int \<Rightarrow> 'a Datfile \<Rightarrow> 'a list option \<times> 'a Datfile" where
  "read_Nsamples n st =
     (case Datfile_read n st of
        (None, st1) \<Rightarrow> (None, st1)
      | (Some data, st1) \<Rightarrow>
          (Some data, Datfile_update_desired_time (of_int n * inf_dt (infdata st1)) st1))"

definition read_to :: "int \<Rightarrow> 'a Datfile \<Rightarrow> 'a list option \<times> 'a Datfile" where
  "read_to n st =
     (let numtoread = (if n = - 1 then inf_N (infdata st) - currsample st
                       else n - currsample st)
      in read_Nsamples numtoread st)"

text \<open>
  \<^verbatim>\<open>read_Tseconds\<close>: the quotient is a division of Python floats, which raises when
  the divisor is zero.
\<close>

definition read_Tseconds ::
  "real \<Rightarrow> 'a Datfile \<Rightarrow> (py_error + 'a list option) \<times> 'a Datfile" where
  "read_Tseconds T st =
     (if inf_dt (infdata st) = 0 then (Inl ZeroDivisionError, st)
      else
        let endsample = np_round ((currtime_desired st + T) / inf_dt (infdata st));
            num_samples_to_read = endsample - currsample st
        in case Datfile_read num_samples_to_read st of
             (None, st1) \<Rightarrow> (Inr None, st1)
           | (Some data, st1) \<Rightarrow> (Inr (Some data), Datfile_update_desired_time T st1))"

definition seek_to :: "real \<Rightarrow> 'a Datfile \<Rightarrow> (py_error + int) \<times> 'a Datfile" where
  "seek_to T st =
     (let st1 = rewind st
      in if inf_dt (infdata st1) = 0 then (Inl ZeroDivisionError, st1)
         else
           let endsample = np_round ((currtime_desired st1 + T) / inf_dt (infdata st1));
               sample_num = endsample - currsample st1
           in case Datfile_seek sample_num st1 of
                (Inl e, st2) \<Rightarrow> (Inl e, st2)
              | (Inr u, st2) \<Rightarrow>
                  let st3 = st2\<lparr>currtime_desired := T\<rparr>;
                      st4 = (case inf_epoch (infdata st3) of
                               None \<Rightarrow> st3
                             | Some e \<Rightarrow> st3\<lparr>currmjd_desired := e + T / SECPERDAY\<rparr>)
                  in (Inr sample_num, st4))"

definition read_all :: "'a Datfile \<Rightarrow> 'a list option \<times> 'a Datfile" where
  "read_all st = Datfile_read (inf_N (infdata (rewind st))) (rewind st)"

text \<open>
  \<^verbatim>\<open>get_baseline_spline\<close>. The loop runs as long as blocks come back; \<open>fuel\<close>
  bounds the number of tests of its condition, and \<open>None\<close> means the bound was reached.
  \<^verbatim>\<open>np.median\<close> is a parameter, and the spline that the external
  \<^verbatim>\<open>InterpolatedUnivariateSpline\<close> builds is represented by its arguments.
\<close>

record spline =
  spline_x :: "real list"
  spline_y :: "real list"
  spline_bbox :: "int \<times> int"

fun baseline_loop ::
  "('a list \<Rightarrow> real) \<Rightarrow> real \<Rightarrow> nat \<Rightarrow> int \<Rightarrow> 'a list option \<Rightarrow> real list \<Rightarrow> real list \<Rightarrow>
   int option \<Rightarrow> 'a Datfile \<Rightarrow>
   ((py_error + real list \<times> real list \<times> int option) \<times> 'a Datfile) option" where
  "baseline_loop median spn 0 istart block xx meds iend st = None"
| "baseline_loop median spn (Suc fuel) istart None xx meds iend st =
     Some (Inr (xx, meds, iend), st)"
| "baseline_loop median spn (Suc fuel) istart (Some b) xx meds iend st =
     (let iend1 = istart + int (length b);
          xx1 = xx @ [0.5 * (of_int istart + of_int iend1)];
          meds1 = meds @ [median b]
      in case read_Tseconds spn st of
           (Inl e, st1) \<Rightarrow> Some (Inl e, st1)
         | (Inr block1, st1) \<Rightarrow>
             baseline_loop median spn fuel iend1 block1 xx1 meds1 (Some iend1) st1)"

definition get_baseline_spline ::
  "('a list \<Rightarrow> real) \<Rightarrow> nat \<Rightarrow> real \<Rightarrow> 'a Datfile \<Rightarrow>
   ((py_error + spline) \<times> 'a Datfile) option" where
  "get_baseline_spline median fuel spn st =
     (case read_Tseconds spn (rewind st) of
        (Inl e, st1) \<Rightarrow> Some (Inl e, st1)
      | (Inr block, st1) \<Rightarrow>
          (case baseline_loop median spn fuel 0 block [] [] None st1 of
             None \<Rightarrow> None
           | Some (Inl e, st2) \<Rightarrow> Some (Inl e, st2)
           | Some (Inr (xx, meds, None), st2) \<Rightarrow> Some (Inl UnboundLocalError, st2)
           | Some (Inr (xx, meds, Some iend), st2) \<Rightarrow>
               Some (Inr \<lparr>spline_x = xx, spline_y = meds, spline_bbox = (0, iend)\<rparr>, st2)))"

subsection \<open>The pulse generator\<close>

text \<open>The keyword arguments \<^verbatim>\<open>pulses\<close> passes to \<^verbatim>\<open>pulse.Pulse\<close>.\<close>

record 'a Pulse =
  pulse_number :: int
  pulse_mjd :: real
  pulse_time :: real
  pulse_duration :: real
  pulse_profile :: "'a list"
  pulse_origfn :: string
  pulse_dt :: real
  pulse_dm :: real
  pulse_telescope :: string
  pulse_lofreq :: real
  pulse_chan_width :: real
  pulse_bw :: real

text \<open>
  The four statements that stand before the loop and again at the end of its body: copy
  the actual clock, ask for the period at that MJD, read one period. The result is the
  pulse the loop yields next, or \<open>None\<close> when the read gave no data and the loop ends.
\<close>

definition next_pulse ::
  "(real \<Rightarrow> real) \<Rightarrow> int \<Rightarrow> 'a Datfile \<Rightarrow> (py_error + 'a Pulse option) \<times> 'a Datfile" where
  "next_pulse period_at_mjd number st =
     (let current_time = currtime_actual st;
          current_mjd = currmjd_actual st;
          current_period = period_at_mjd current_mjd
      in case read_Tseconds current_period st of
           (Inl e, st1) \<Rightarrow> (Inl e, st1)
         | (Inr None, st1) \<Rightarrow> (Inr None, st1)
         | (Inr (Some current_pulse), st1) \<Rightarrow>
             (Inr (Some \<lparr>pulse_number = number, pulse_mjd = current_mjd,
                          pulse_time = current_time, pulse_duration = current_period,
                          pulse_profile = current_pulse, pulse_origfn = datfn st1,
                          pulse_dt = inf_dt (infdata st1), pulse_dm = inf_DM (infdata st1),
                          pulse_telescope = inf_telescope (infdata st1),
                          pulse_lofreq = inf_lofreq (infdata st1),
                          pulse_chan_width = inf_chan_width (infdata st1),
                          pulse_bw = inf_BW (infdata st1)\<rparr>), st1))"

text \<open>
  The generator from its first resumption to its first yield: the epoch test, the rewind,
  the optional skip (whose result is dropped) and the first read.
\<close>

definition pulses_start ::
  "(real \<Rightarrow> real) \<Rightarrow> real \<Rightarrow> 'a Datfile \<Rightarrow> (py_error + 'a Pulse option) \<times> 'a Datfile" where
  "pulses_start period_at_mjd time_to_skip st =
     (if \<not> has_epoch st then (Inl NotImplementedError, st)
      else
        let st1 = rewind st
        in case (if time_to_skip > 0 then read_Tseconds time_to_skip st1
                 else (Inr None, st1)) of
             (Inl e, st2) \<Rightarrow> (Inl e, st2)
           | (Inr burnt, st2) \<Rightarrow> next_pulse period_at_mjd 1 st2)"

text \<open>
  Draining the generator, as \<^verbatim>\<open>for p in dat.pulses(...)\<close> does: \<open>pulses_rest\<close> is
  given the outcome of the last read and resumes after each yield with the next number.
  \<open>fuel\<close> bounds the number of resumptions; \<open>None\<close> means the bound was reached.
\<close>

fun pulses_rest ::
  "(real \<Rightarrow> real) \<Rightarrow> nat \<Rightarrow> int \<Rightarrow> (py_error + 'a Pulse option) \<times> 'a Datfile \<Rightarrow>
   ((py_error + 'a Pulse list) \<times> 'a Datfile) option" where
  "pulses_rest period_at_mjd 0 number r = None"
| "pulses_rest period_at_mjd (Suc fuel) number (Inl e, st) = Some (Inl e, st)"
| "pulses_rest period_at_mjd (Suc fuel) number (Inr None, st) = Some (Inr [], st)"
| "pulses_rest period_at_mjd (Suc fuel) number (Inr (Some p), st) =
     (case pulses_rest period_at_mjd fuel (number + 1)
             (next_pulse period_at_mjd (number + 1) st) of
        None \<Rightarrow> None
      | Some (Inl e, st1) \<Rightarrow> Some (Inl e, st1)
      | Some (Inr ps, st1) \<Rightarrow> Some (Inr (p # ps), st1))"

definition pulses ::
  "(real \<Rightarrow> real) \<Rightarrow> nat \<Rightarrow> real \<Rightarrow> 'a Datfile \<Rightarrow>
   ((py_error + 'a Pulse list) \<times> 'a Datfile) option" where
  "pulses period_at_mjd fuel time_to_skip st =
     pulses_rest period_at_mjd fuel 1 (pulses_start period_at_mjd time_to_skip st)"

subsection \<open>Load-time corrections and construction\<close>

text \<open>\<^verbatim>\<open>str.lower\<close> on ASCII, and the substring test \<^verbatim>\<open>sub in s\<close>.\<close>

definition lower_char :: "char \<Rightarrow> char" where
  "lower_char c =
     (case map_of (zip ''ABCDEFGHIJKLMNOPQRSTUVWXYZ'' ''abcdefghijklmnopqrstuvwxyz'') c of
        None \<Rightarrow> c
      | Some l \<Rightarrow> l)"

definition lower :: "string \<Rightarrow> string" where
  "lower s = map lower_char s"

definition str_in :: "string \<Rightarrow> string \<Rightarrow> bool" where
  "str_in sub s = list_ex (\<lambda>i. take (length sub) (drop i s) = sub) [0..<Suc (length s)]"

definition endswith :: "string \<Rightarrow> string \<Rightarrow> bool" where
  "endswith s suf = (length suf \<le> length s \<and> drop (length s - length suf) s = suf)"

text \<open>
  \<^verbatim>\<open>np.fmod\<close> is the remainder of the division truncated towards zero. \<^verbatim>\<open>np.fabs\<close>
  is applied to the outcome of the comparison, a truth value, which it turns into
  \<open>1.0\<close> or \<open>0.0\<close>; the \<^verbatim>\<open>if\<close> then tests that number.
\<close>

definition np_fmod :: "real \<Rightarrow> real \<Rightarrow> real" where
  "np_fmod x y = x - of_int (if 0 \<le> x / y then \<lfloor>x / y\<rfloor> else \<lceil>x / y\<rceil>) * y"

definition np_fabs :: "real \<Rightarrow> real" where
  "np_fabs x = \<bar>x\<bar>"

text \<open>
  An update \<^verbatim>\<open>inf.epoch += c\<close> guarded by \<^verbatim>\<open>inf.epoch > 0.0\<close>; reading a missing
  \<^verbatim>\<open>epoch\<close> raises.
\<close>

definition add_epoch_if_positive :: "real \<Rightarrow> infodata \<Rightarrow> (py_error + unit) \<times> infodata" where
  "add_epoch_if_positive c info =
     (case inf_epoch info of
        None \<Rightarrow> (Inl AttributeError, info)
      | Some e \<Rightarrow> if e > 0 then (Inr (), info\<lparr>inf_epoch := Some (e + c)\<rparr>) else (Inr (), info))"

definition correct_infdata :: "infodata \<Rightarrow> (py_error + unit) \<times> infodata" where
  "correct_infdata info =
     (if inf_telescope info = ''GBT'' then
        if np_fabs (of_bool (np_fmod (inf_dt info) (8192 / 100000000) < 1 / 10 ^ 12)) \<noteq> 0 \<and>
           (str_in ''spigot'' (lower (inf_instrument info)) \<or>
            \<not> str_in ''guppi'' (lower (inf_instrument info)))
        then
          if inf_chan_width info = 800 / 1024 then
            add_epoch_if_positive (39365 / 1000000 / 86400)
              (info\<lparr>inf_lofreq := inf_lofreq info - 0.5 * inf_chan_width info\<rparr>)
          else if inf_chan_width info = 800 / 2048 then
            let info1 = info\<lparr>inf_lofreq := inf_lofreq info - 0.5 * inf_chan_width info\<rparr>
            in case inf_epoch info1 of
                 None \<Rightarrow> (Inl AttributeError, info1)
               | Some e \<Rightarrow>
                   if e < 53700 then
                     if e > 0 then
                       (case inf_tepoch info1 of
                          None \<Rightarrow> (Inl AttributeError, info1)
                        | Some t \<Rightarrow>
                            (Inr (), info1\<lparr>inf_tepoch := Some (t + 39352 / 1000000 / 86400)\<rparr>))
                     else (Inr (), info1)
                   else add_epoch_if_positive (39365 / 1000000 / 86400) info1
          else if inf_chan_width info = 50 / 1024 \<or> inf_chan_width info = 50 / 2048 then
            add_epoch_if_positive (39450 / 1000000 / 86400)
              (info\<lparr>inf_lofreq := inf_lofreq info + 0.5 * inf_chan_width info\<rparr>)
          else (Inr (), info)
        else (Inr (), info)
      else (Inr (), info))"

text \<open>
  \<^verbatim>\<open>Datfile.__init__\<close> with the default sample type, whose items have four bytes.
  \<open>files\<close> gives the content of the data file a path names, and \<open>infs\<close> the metadata
  object the external parser builds from a path; both are \<open>None\<close> where nothing can be
  opened. The attributes that \<^verbatim>\<open>rewind\<close> assigns are zero before it runs.
\<close>

definition Datfile_init ::
  "(string \<Rightarrow> 'a list option) \<Rightarrow> (string \<Rightarrow> infodata option) \<Rightarrow> string \<Rightarrow>
   py_error + 'a Datfile" where
  "Datfile_init files infs fn =
     (if endswith fn ''.dat'' then
        let base = take (length fn - 4) fn
        in (case files fn of
             None \<Rightarrow> Inl IOError
           | Some content \<Rightarrow>
               let inff = base @ ''.inf''
               in (case infs inff of
                    None \<Rightarrow> Inl IOError
                  | Some info \<Rightarrow>
                      (case correct_infdata info of
                         (Inl e, info1) \<Rightarrow> Inl e
                       | (Inr u, info1) \<Rightarrow>
                           Inr (rewind \<lparr>datfn = fn, basefn = base, inffn = inff,
                                        bytes_per_sample = 4, infdata = info1,
                                        datfile = content, fpos = 0, currsample = 0,
                                        currtime_actual = 0, currtime_desired = 0,
                                        currmjd_actual = 0, currmjd_desired = 0\<rparr>))))
      else Inl TypeError)"

subsection \<open>Properties of a reader state\<close>

text \<open>The position invariant: the sample counter lies within the series.\<close>

definition sample_inv :: "'a Datfile \<Rightarrow> bool" where
  "sample_inv st = (0 \<le> currsample st \<and> currsample st \<le> inf_N (infdata st))"

text \<open>
  A reader is on track when, besides the position invariant, its sample counter is not
  ahead of its desired time: the next duration read then asks for a count that is not
  negative.
\<close>

definition tracked :: "'a Datfile \<Rightarrow> bool" where
  "tracked st =
     (sample_inv st \<and>
      currsample st \<le> np_round (currtime_desired st / inf_dt (infdata st)))"

text \<open>
  Where the reader stands after \<open>j\<close> periods of length \<open>P\<close> read from the start: the
  desired time is \<open>j * P\<close>, the sample counter is that time in samples, rounded, and
  the file position agrees with the counter.
\<close>

definition at_pulse :: "real \<Rightarrow> nat \<Rightarrow> 'a Datfile \<Rightarrow> bool" where
  "at_pulse P j st =
     (currtime_desired st = of_nat j * P \<and>
      currsample st = np_round (of_nat j * P / inf_dt (infdata st)) \<and>
      int (fpos st) = currsample st)"

text \<open>
  The reader after \<open>k\<close> reads of a duration \<open>P\<close> from the start of the file: the state
  in which the generator asks for its pulse number \<open>k + 1\<close> when the period is always
  \<open>P\<close> and nothing is skipped.
\<close>

definition pulse_state :: "real \<Rightarrow> nat \<Rightarrow> 'a Datfile \<Rightarrow> 'a Datfile" where
  "pulse_state P k st = ((\<lambda>s. snd (read_Tseconds P s)) ^^ k) (rewind st)"

text \<open>The profile lengths of the pulses a drained generator produced.\<close>

definition pulse_sizes ::
  "((py_error + 'a Pulse list) \<times> 'a Datfile) option \<Rightarrow> int list option" where
  "pulse_sizes r =
     (case r of
        Some (Inr ps, st) \<Rightarrow> Some (map (\<lambda>p. int (length (pulse_profile p))) ps)
      | _ \<Rightarrow> None)"

subsection \<open>A small observation, used for the concrete checks\<close>

text \<open>
  Ten samples \<open>0, \<dots>, 9\<close> taken one second apart, with epoch MJD 50000, from a
  telescope that needs no correction. \<open>demo_reader\<close> is the reader that the constructor
  builds from them.
\<close>

definition demo_inf :: infodata where
  "demo_inf =
     \<lparr>inf_N = 10, inf_dt = 1, inf_epoch = Some 50000, inf_tepoch = None,
      inf_telescope = ''Arecibo'', inf_instrument = ''WAPP'', inf_lofreq = 1000,
      inf_chan_width = 1 / 2, inf_BW = 100, inf_DM = 10\<rparr>"

definition demo_files :: "string \<Rightarrow> nat list option" where
  "demo_files fn = (if fn = ''obs.dat'' then Some [0, 1, 2, 3, 4, 5, 6, 7, 8, 9] else None)"

definition demo_infs :: "string \<Rightarrow> infodata option" where
  "demo_infs fn = (if fn = ''obs.inf'' then Some demo_inf else None)"

definition demo_reader :: "nat Datfile" where
  "demo_reader =
     \<lparr>datfn = ''obs.dat'', basefn = ''obs'', inffn = ''obs.inf'', bytes_per_sample = 4,
      infdata = demo_inf, datfile = [0, 1, 2, 3, 4, 5, 6, 7, 8, 9], fpos = 0, currsample = 0,
      currtime_actual = 0, currtime_desired = 0, currmjd_actual = 50000,
      currmjd_desired = 50000\<rparr>"

text \<open>The same reader when the metadata file gives no epoch.\<close>

definition demo_reader_no_epoch :: "nat Datfile" where
  "demo_reader_no_epoch = demo_reader\<lparr>infdata := demo_inf\<lparr>inf_epoch := None\<rparr>\<rparr>"

text \<open>A pulsar whose period is the same at every MJD.\<close>

definition constant_period :: "real \<Rightarrow> real \<Rightarrow> real" where
  "constant_period P mjd = P"

text \<open>
  Metadata of a GBT Spigot observation in the 800 MHz mode with 1024 lags, for a given
  sample interval.
\<close>

definition spigot_inf :: "real \<Rightarrow> infodata" where
  "spigot_inf d =
     \<lparr>inf_N = 10000, inf_dt = d, inf_epoch = Some 50000, inf_tepoch = None,
      inf_telescope = ''GBT'', inf_instrument = ''spigot'', inf_lofreq = 1400,
      inf_chan_width = 800 / 1024, inf_BW = 800, inf_DM = 10\<rparr>"

text \<open>
  A median for the concrete checks, in the place of \<^verbatim>\<open>np.median\<close>: the middle
  element of the sorted block, or the mean of the two middle ones.
\<close>

definition block_median :: "nat list \<Rightarrow> real" where
  "block_median xs =
     (let s = sort xs; k = length xs
      in if even k then (real (s ! (k div 2 - 1)) + real (s ! (k div 2))) / 2
         else real (s ! (k div 2)))"

section \<open>Basic facts\<close>

lemma demo_reader_constructed:
  "Datfile_init demo_files demo_infs ''obs.dat'' = Inr demo_reader"
  by (simp add: Datfile_init_def endswith_def demo_files_def demo_infs_def demo_inf_def
      correct_infdata_def rewind_def demo_reader_def)

lemma Datfile_read_None:
  "inf_N (infdata st) < currsample st + n \<Longrightarrow> Datfile_read n st = (None, st)"
  by (simp add: Datfile_read_def)

lemma Datfile_read_Some:
  "currsample st + n \<le> inf_N (infdata st) \<Longrightarrow>
   Datfile_read n st =
     (Some (if n < 0 then drop (fpos st) (datfile st)
            else take (nat n) (drop (fpos st) (datfile st))),
      st\<lparr>currsample := currsample st + n,
         currmjd_actual :=
           (if has_epoch st
            then currmjd_actual st + inf_dt (infdata st) * of_int n / SECPERDAY
            else currmjd_actual st),
         currtime_actual := currtime_actual st + inf_dt (infdata st) * of_int n,
         fpos := fpos st +
           length (if n < 0 then drop (fpos st) (datfile st)
                   else take (nat n) (drop (fpos st) (datfile st)))\<rparr>)"
  by (simp add: Datfile_read_def fromfile_def has_epoch_def Let_def)

lemma read_Nsamples_ok:
  assumes "currsample st + n \<le> inf_N (infdata st)" and "0 \<le> n"
  shows "\<exists>s1. read_Nsamples n st = (Some (take (nat n) (drop (fpos st) (datfile st))), s1) \<and>
           fpos s1 = fpos st + length (take (nat n) (drop (fpos st) (datfile st))) \<and>
           datfile s1 = datfile st \<and> currsample s1 = currsample st + n \<and>
           infdata s1 = infdata st"
  using assms
  by (simp add: read_Nsamples_def Datfile_read_Some Datfile_update_desired_time_def
      has_epoch_def Let_def)

lemma take_take_drop:
  "take a xs @ take b (drop (length (take a xs)) xs) = take (a + b) xs"
proof (cases "a \<le> length xs")
  case True
  then show ?thesis by (simp add: take_add min_def)
next
  case False
  then show ?thesis by simp
qed

lemma demo_inf_fields:
  "inf_N demo_inf = 10" "inf_dt demo_inf = 1" "inf_epoch demo_inf = Some 50000"
  by (simp_all add: demo_inf_def)

lemma demo_reader_fields:
  "infdata demo_reader = demo_inf" "fpos demo_reader = 0" "currsample demo_reader = 0"
  "currtime_actual demo_reader = 0" "currtime_desired demo_reader = 0"
  "currmjd_actual demo_reader = 50000" "currmjd_desired demo_reader = 50000"
  "datfile demo_reader = [0, 1, 2, 3, 4, 5, 6, 7, 8, 9]"
  by (simp_all add: demo_reader_def)

lemma np_round_values:
  "np_round 2 = 2" "np_round 20 = 20" "np_round (1 / 4) = 0" "np_round (81 / 4) = 20"
  by (simp_all add: np_round_def)

lemma seek_to_2:
  "seek_to 2 demo_reader =
     (Inr 2, demo_reader\<lparr>fpos := 2, currsample := 2, currtime_actual := 2,
        currtime_desired := 2, currmjd_actual := 2 / 86400,
        currmjd_desired := 50000 + 2 / 86400\<rparr>)"
  by (simp add: seek_to_def rewind_def Datfile_seek_def np_round_values has_epoch_def
      SECPERDAY_def demo_reader_fields demo_inf_fields Let_def)

lemma seek_to_20:
  "seek_to 20 demo_reader =
     (Inr 20, demo_reader\<lparr>fpos := 20, currsample := 20, currtime_actual := 20,
        currtime_desired := 20, currmjd_actual := 20 / 86400,
        currmjd_desired := 50000 + 20 / 86400\<rparr>)"
  by (simp add: seek_to_def rewind_def Datfile_seek_def np_round_values has_epoch_def
      SECPERDAY_def demo_reader_fields demo_inf_fields Let_def)

lemma lower_spigot: "lower ''spigot'' = ''spigot''"
  by (simp add: lower_def lower_char_def)

lemma str_in_spigot: "str_in ''spigot'' ''spigot''"
  by (simp add: str_in_def)

lemma read_Tseconds_error: "fst (read_Tseconds T st) \<noteq> Inl NotImplementedError"
  by (simp add: read_Tseconds_def Let_def split: prod.splits option.splits)

lemma next_pulse_error: "fst (next_pulse p k st) \<noteq> Inl NotImplementedError"
proof (cases "read_Tseconds (p (currmjd_actual st)) st")
  case (Pair r st1)
  with read_Tseconds_error [of "p (currmjd_actual st)" st]
  show ?thesis
    by (auto simp add: next_pulse_def Let_def split: sum.splits option.splits)
qed

lemma pulses_rest_error:
  "fst r \<noteq> Inl NotImplementedError \<Longrightarrow> pulses_rest p fuel k r = Some r' \<Longrightarrow>
   fst r' \<noteq> Inl NotImplementedError"
proof (induction fuel arbitrary: k r r')
  case 0
  then show ?case by simp
next
  case (Suc fuel)
  obtain x st where r: "r = (x, st)" by (cases r)
  show ?case
  proof (cases x)
    case (Inl e)
    with Suc.prems r show ?thesis by auto
  next
    case (Inr o1)
    show ?thesis
    proof (cases o1)
      case None
      with Suc.prems r Inr show ?thesis by auto
    next
      case (Some pl)
      from Suc.prems(2) r Inr Some
      obtain r1 where rec: "pulses_rest p fuel (k + 1) (next_pulse p (k + 1) st) = Some r1"
        by (auto split: option.splits)
      from Suc.IH [OF next_pulse_error rec] have "fst r1 \<noteq> Inl NotImplementedError" .
      with Suc.prems(2) r Inr Some rec show ?thesis
        by (auto split: prod.splits sum.splits)
    qed
  qed
qed

lemma pulses_start_error:
  "has_epoch st \<Longrightarrow> fst (pulses_start p skip st) \<noteq> Inl NotImplementedError"
proof (cases "read_Tseconds skip (rewind st)")
  case (Pair r st1)
  assume "has_epoch st"
  with Pair read_Tseconds_error [of skip "rewind st"] next_pulse_error
  show ?thesis
    by (auto simp add: pulses_start_def Let_def split: sum.splits)
qed

subsection \<open>Rounding, and the reads of a constant period\<close>

lemma np_round_bounds: "\<lfloor>x\<rfloor> \<le> np_round x \<and> np_round x \<le> \<lfloor>x\<rfloor> + 1"
  by (simp add: np_round_def Let_def)

lemma np_round_mono:
  assumes "x \<le> y"
  shows "np_round x \<le> np_round y"
proof (cases "\<lfloor>x\<rfloor> = \<lfloor>y\<rfloor>")
  case True
  have "x - of_int \<lfloor>x\<rfloor> \<le> y - of_int \<lfloor>x\<rfloor>" using assms by simp
  then show ?thesis
    using True by (auto simp add: np_round_def Let_def)
next
  case False
  moreover have "\<lfloor>x\<rfloor> \<le> \<lfloor>y\<rfloor>" using assms by (rule floor_mono)
  ultimately have "\<lfloor>x\<rfloor> + 1 \<le> \<lfloor>y\<rfloor>" by simp
  with np_round_bounds [of x] np_round_bounds [of y] show ?thesis by linarith
qed

lemma np_round_of_int: "np_round (of_int k) = k"
  by (simp add: np_round_def)

lemma np_round_0: "np_round 0 = 0"
  by (simp add: np_round_def)

lemma bracket_exists:
  assumes "0 < d" and "0 < P"
  shows "\<exists>m::nat. (m = 0 \<or> np_round (of_nat m * P / d) \<le> N) \<and>
                  N < np_round (of_nat (Suc m) * P / d)"
proof -
  let ?Q = "\<lambda>k::nat. N < np_round (of_nat (Suc k) * P / d)"
  have pos: "0 < P / d" using assms by simp
  obtain k :: nat where k: "of_int (N + 1) < of_nat k * (P / d)"
    using reals_Archimedean3 [OF pos] by blast
  have "of_nat (Suc k) * P / d = of_nat k * (P / d) + P / d"
    by (simp add: algebra_simps add_divide_distrib)
  with k pos have "of_int (N + 1) \<le> of_nat (Suc k) * P / d" by linarith
  then have "N + 1 \<le> \<lfloor>of_nat (Suc k) * P / d\<rfloor>" by (simp add: le_floor_iff)
  with np_round_bounds [of "of_nat (Suc k) * P / d"] have "?Q k" by linarith
  then have least: "?Q (LEAST k. ?Q k)" by (rule LeastI)
  show ?thesis
  proof (cases "LEAST k. ?Q k")
    case 0
    with least show ?thesis by auto
  next
    case (Suc m')
    then have "m' < (LEAST k. ?Q k)" by simp
    then have "\<not> ?Q m'" by (rule not_less_Least)
    with least Suc show ?thesis by (intro exI [of _ "Suc m'"]) auto
  qed
qed

lemma read_Tseconds_None:
  assumes "inf_dt (infdata st) \<noteq> 0"
    and "inf_N (infdata st) < np_round ((currtime_desired st + T) / inf_dt (infdata st))"
  shows "read_Tseconds T st = (Inr None, st)"
proof -
  have "inf_N (infdata st) < currsample st +
      (np_round ((currtime_desired st + T) / inf_dt (infdata st)) - currsample st)"
    using assms(2) by simp
  then show ?thesis
    using assms(1) by (simp add: read_Tseconds_def Datfile_read_None)
qed

lemma read_Tseconds_Some:
  assumes "inf_dt (infdata st) \<noteq> 0"
    and "np_round ((currtime_desired st + T) / inf_dt (infdata st)) \<le> inf_N (infdata st)"
    and "currsample st \<le> np_round ((currtime_desired st + T) / inf_dt (infdata st))"
  shows "\<exists>st'. read_Tseconds T st =
           (Inr (Some (take (nat (np_round ((currtime_desired st + T) / inf_dt (infdata st))
                                   - currsample st))
                        (drop (fpos st) (datfile st)))), st') \<and>
           currsample st' = np_round ((currtime_desired st + T) / inf_dt (infdata st)) \<and>
           currtime_desired st' = currtime_desired st + T \<and>
           fpos st' = fpos st +
             length (take (nat (np_round ((currtime_desired st + T) / inf_dt (infdata st))
                                 - currsample st))
                      (drop (fpos st) (datfile st))) \<and>
           infdata st' = infdata st \<and> datfile st' = datfile st \<and> datfn st' = datfn st"
proof -
  have le: "currsample st +
      (np_round ((currtime_desired st + T) / inf_dt (infdata st)) - currsample st)
      \<le> inf_N (infdata st)"
    using assms(2) by simp
  show ?thesis
    using assms(1,3)
    by (simp add: read_Tseconds_def Datfile_read_Some [OF le] Datfile_update_desired_time_def
        has_epoch_def Let_def)
qed

lemma at_pulse_end:
  assumes "inf_dt (infdata st) \<noteq> 0" and "at_pulse P j st"
    and "inf_N (infdata st) < np_round (of_nat (Suc j) * P / inf_dt (infdata st))"
  shows "read_Tseconds P st = (Inr None, st)"
proof -
  have "currtime_desired st + P = of_nat (Suc j) * P"
    using assms(2) by (simp add: at_pulse_def algebra_simps)
  with assms(3) show ?thesis
    by (intro read_Tseconds_None [OF assms(1)]) simp
qed

lemma at_pulse_step:
  assumes dt: "0 < inf_dt (infdata st)" and P: "0 \<le> P" and at: "at_pulse P j st"
    and le: "np_round (of_nat (Suc j) * P / inf_dt (infdata st)) \<le> inf_N (infdata st)"
    and len: "inf_N (infdata st) \<le> int (length (datfile st))"
  shows "\<exists>blk st'. read_Tseconds P st = (Inr (Some blk), st') \<and>
           int (length blk) = np_round (of_nat (Suc j) * P / inf_dt (infdata st))
                              - np_round (of_nat j * P / inf_dt (infdata st)) \<and>
           at_pulse P (Suc j) st' \<and>
           infdata st' = infdata st \<and> datfile st' = datfile st \<and> datfn st' = datfn st"
proof -
  let ?d = "inf_dt (infdata st)"
  let ?g = "\<lambda>k::nat. np_round (of_nat k * P / ?d)"
  have sum: "currtime_desired st + P = of_nat (Suc j) * P"
    using at by (simp add: at_pulse_def algebra_simps)
  have cs: "currsample st = ?g j" and fp: "int (fpos st) = ?g j"
    using at by (simp_all add: at_pulse_def)
  have "of_nat j * P / ?d \<le> of_nat (Suc j) * P / ?d"
    using dt P by (simp add: divide_le_cancel mult_right_mono)
  then have mono: "?g j \<le> ?g (Suc j)" by (rule np_round_mono)
  have dt0: "?d \<noteq> 0" using dt by simp
  from read_Tseconds_Some [OF dt0, of P] sum cs le mono
  obtain st' where r: "read_Tseconds P st =
      (Inr (Some (take (nat (?g (Suc j) - ?g j)) (drop (fpos st) (datfile st)))), st')"
    and c': "currsample st' = ?g (Suc j)"
    and d': "currtime_desired st' = of_nat (Suc j) * P"
    and f': "fpos st' = fpos st +
        length (take (nat (?g (Suc j) - ?g j)) (drop (fpos st) (datfile st)))"
    and i': "infdata st' = infdata st" and df': "datfile st' = datfile st"
    and n': "datfn st' = datfn st"
    by auto
  have room: "fpos st + nat (?g (Suc j) - ?g j) \<le> length (datfile st)"
    using fp mono le len by linarith
  then have blk: "length (take (nat (?g (Suc j) - ?g j)) (drop (fpos st) (datfile st)))
      = nat (?g (Suc j) - ?g j)"
    by simp
  have "int (fpos st') = ?g (Suc j)"
    using f' blk fp mono by simp
  with c' d' i' have "at_pulse P (Suc j) st'"
    by (simp add: at_pulse_def)
  moreover have "int (length (take (nat (?g (Suc j) - ?g j)) (drop (fpos st) (datfile st))))
      = ?g (Suc j) - ?g j"
    using blk mono by simp
  ultimately show ?thesis using r i' df' n' by blast
qed

lemma next_pulse_end:
  assumes "inf_dt (infdata st) \<noteq> 0" and "at_pulse P j st"
    and "inf_N (infdata st) < np_round (of_nat (Suc j) * P / inf_dt (infdata st))"
  shows "next_pulse (constant_period P) k st = (Inr None, st)"
  using at_pulse_end [OF assms]
  by (simp add: next_pulse_def constant_period_def)

lemma next_pulse_step:
  assumes "0 < inf_dt (infdata st)" and "0 \<le> P" and "at_pulse P j st"
    and "np_round (of_nat (Suc j) * P / inf_dt (infdata st)) \<le> inf_N (infdata st)"
    and "inf_N (infdata st) \<le> int (length (datfile st))"
  shows "\<exists>pl st'. next_pulse (constant_period P) k st = (Inr (Some pl), st') \<and>
           pulse_number pl = k \<and>
           int (length (pulse_profile pl)) =
             np_round (of_nat (Suc j) * P / inf_dt (infdata st))
             - np_round (of_nat j * P / inf_dt (infdata st)) \<and>
           at_pulse P (Suc j) st' \<and> infdata st' = infdata st \<and> datfile st' = datfile st"
proof -
  from at_pulse_step [OF assms]
  obtain blk st' where "read_Tseconds P st = (Inr (Some blk), st')"
    and "int (length blk) = np_round (of_nat (Suc j) * P / inf_dt (infdata st))
                            - np_round (of_nat j * P / inf_dt (infdata st))"
    and "at_pulse P (Suc j) st'" and "infdata st' = infdata st" and "datfile st' = datfile st"
    by blast
  then show ?thesis
    by (simp add: next_pulse_def constant_period_def)
qed

lemma pulses_rest_constant:
  assumes "0 < inf_dt info" and "0 \<le> P"
    and "infdata st = info" and "inf_N info \<le> int (length (datfile st))"
    and "at_pulse P j st" and "j \<le> m"
    and "\<forall>k. j < k \<and> k \<le> m \<longrightarrow> np_round (of_nat k * P / inf_dt info) \<le> inf_N info"
    and "inf_N info < np_round (of_nat (Suc m) * P / inf_dt info)"
    and "m - j < fuel"
  shows "\<exists>pls st'.
           pulses_rest (constant_period P) fuel (int j + 1)
             (next_pulse (constant_period P) (int j + 1) st) = Some (Inr pls, st') \<and>
           map pulse_number pls = map (\<lambda>i. int i + 1) [j..<m] \<and>
           map (\<lambda>p. int (length (pulse_profile p))) pls =
             map (\<lambda>i. np_round (of_nat (Suc i) * P / inf_dt info)
                      - np_round (of_nat i * P / inf_dt info)) [j..<m] \<and>
           infdata st' = info \<and>
           read_Tseconds P st' = (Inr None, st')"
  using assms(3-)
proof (induction "m - j" arbitrary: j st fuel)
  case 0
  then have jm: "j = m" by simp
  obtain f where fuel: "fuel = Suc f" using "0.prems"(7) by (cases fuel) auto
  have dt0: "inf_dt (infdata st) \<noteq> 0" using assms(1) "0.prems"(1) by simp
  have above: "inf_N (infdata st) < np_round (of_nat (Suc j) * P / inf_dt (infdata st))"
    using "0.prems"(1,6) jm by simp
  have "next_pulse (constant_period P) (int j + 1) st = (Inr None, st)"
    by (rule next_pulse_end [OF dt0 "0.prems"(3) above])
  moreover have "read_Tseconds P st = (Inr None, st)"
    by (rule at_pulse_end [OF dt0 "0.prems"(3) above])
  ultimately show ?case
    using jm fuel "0.prems"(1) by simp
next
  case (Suc n)
  then have jm: "j < m" by simp
  obtain f where fuel: "fuel = Suc f"
    using Suc.prems(7) by (cases fuel) auto
  have f: "m - Suc j < f" using Suc.prems(7) fuel jm by linarith
  have dt: "0 < inf_dt (infdata st)" using assms(1) Suc.prems(1) by simp
  have "j < Suc j \<and> Suc j \<le> m" using jm by simp
  with Suc.prems(5) have "np_round (of_nat (Suc j) * P / inf_dt info) \<le> inf_N info"
    by blast
  then have le: "np_round (of_nat (Suc j) * P / inf_dt (infdata st)) \<le> inf_N (infdata st)"
    by (simp only: Suc.prems(1))
  have len: "inf_N (infdata st) \<le> int (length (datfile st))"
    using Suc.prems(1,2) by simp
  from next_pulse_step [OF dt assms(2) Suc.prems(3) le len, of "int j + 1"]
  obtain pl st1 where np: "next_pulse (constant_period P) (int j + 1) st = (Inr (Some pl), st1)"
    and num: "pulse_number pl = int j + 1"
    and size: "int (length (pulse_profile pl)) =
        np_round (of_nat (Suc j) * P / inf_dt info) - np_round (of_nat j * P / inf_dt info)"
    and at1: "at_pulse P (Suc j) st1" and i1: "infdata st1 = info"
    and d1: "datfile st1 = datfile st"
    using Suc.prems(1) by auto
  have n: "n = m - Suc j" using Suc.hyps(2) by simp
  have len1: "inf_N info \<le> int (length (datfile st1))" using Suc.prems(2) d1 by simp
  have below1: "\<forall>k. Suc j < k \<and> k \<le> m \<longrightarrow> np_round (of_nat k * P / inf_dt info) \<le> inf_N info"
    using Suc.prems(5) by simp
  have jm1: "Suc j \<le> m" using jm by simp
  from Suc.hyps(1) [OF n i1 len1 at1 jm1 below1 Suc.prems(6) f]
  obtain pls st' where
    rest: "pulses_rest (constant_period P) f (int (Suc j) + 1)
             (next_pulse (constant_period P) (int (Suc j) + 1) st1) = Some (Inr pls, st')"
    and nums: "map pulse_number pls = map (\<lambda>i. int i + 1) [Suc j..<m]"
    and sizes: "map (\<lambda>p. int (length (pulse_profile p))) pls =
        map (\<lambda>i. np_round (of_nat (Suc i) * P / inf_dt info)
                 - np_round (of_nat i * P / inf_dt info)) [Suc j..<m]"
    and i': "infdata st' = info"
    and fin: "read_Tseconds P st' = (Inr None, st')"
    by blast
  have shift: "int (Suc j) + 1 = int j + 1 + 1" by simp
  have run: "pulses_rest (constant_period P) fuel (int j + 1)
      (next_pulse (constant_period P) (int j + 1) st) = Some (Inr (pl # pls), st')"
    using rest by (simp only: np fuel pulses_rest.simps shift) simp
  have upt: "[j..<m] = j # [Suc j..<m]" using jm by (rule upt_conv_Cons)
  show ?case
    using run num size nums sizes i' fin by (simp only: upt) simp
qed

lemma rewind_fields:
  "infdata (rewind st) = infdata st" "datfile (rewind st) = datfile st"
  "currsample (rewind st) = 0" "currtime_desired (rewind st) = 0" "fpos (rewind st) = 0"
  by (simp_all add: rewind_def Let_def split: option.splits)

lemma at_pulse_rewind: "at_pulse P 0 (rewind st)"
  by (simp add: at_pulse_def rewind_fields np_round_0)

lemma pulses_constant:
  assumes dt: "0 < inf_dt (infdata st)" and P: "0 < P" and ep: "has_epoch st"
    and len: "inf_N (infdata st) \<le> int (length (datfile st))"
    and below: "m = 0 \<or> np_round (of_nat m * P / inf_dt (infdata st)) \<le> inf_N (infdata st)"
    and above: "inf_N (infdata st) < np_round (of_nat (Suc m) * P / inf_dt (infdata st))"
    and fuel: "m < fuel"
  shows "\<exists>ps st'.
           pulses (constant_period P) fuel 0 st = Some (Inr ps, st') \<and>
           length ps = m \<and>
           map pulse_number ps = map (\<lambda>i. int i + 1) [0..<m] \<and>
           map (\<lambda>p. int (length (pulse_profile p))) ps =
             map (\<lambda>i. np_round (of_nat (Suc i) * P / inf_dt (infdata st))
                      - np_round (of_nat i * P / inf_dt (infdata st))) [0..<m] \<and>
           read_Tseconds P st' = (Inr None, st')"
proof -
  let ?d = "inf_dt (infdata st)"
  have all: "\<forall>k. 0 < k \<and> k \<le> m \<longrightarrow> np_round (of_nat k * P / ?d) \<le> inf_N (infdata st)"
  proof (intro allI impI)
    fix k :: nat assume k: "0 < k \<and> k \<le> m"
    then have "of_nat k * P / ?d \<le> of_nat m * P / ?d"
      using dt P by (simp add: divide_le_cancel)
    then have "np_round (of_nat k * P / ?d) \<le> np_round (of_nat m * P / ?d)"
      by (rule np_round_mono)
    moreover have "m \<noteq> 0" using k by simp
    ultimately show "np_round (of_nat k * P / ?d) \<le> inf_N (infdata st)"
      using below by simp
  qed
  have P0: "0 \<le> P" using P by simp
  have len': "inf_N (infdata st) \<le> int (length (datfile (rewind st)))"
    using len by (simp add: rewind_fields)
  have fuel': "m - 0 < fuel" using fuel by simp
  from pulses_rest_constant [OF dt P0 rewind_fields(1) len' at_pulse_rewind le0 [of m] all above fuel']
  obtain ps st' where
    run: "pulses_rest (constant_period P) fuel (int 0 + 1)
            (next_pulse (constant_period P) (int 0 + 1) (rewind st)) = Some (Inr ps, st')"
    and nums: "map pulse_number ps = map (\<lambda>i. int i + 1) [0..<m]"
    and sizes: "map (\<lambda>p. int (length (pulse_profile p))) ps =
        map (\<lambda>i. np_round (of_nat (Suc i) * P / ?d) - np_round (of_nat i * P / ?d)) [0..<m]"
    and fin: "read_Tseconds P st' = (Inr None, st')"
    by blast
  have "pulses (constant_period P) fuel 0 st = Some (Inr ps, st')"
    using run ep by (simp add: pulses_def pulses_start_def)
  moreover have "length ps = m"
    using nums by (metis length_map length_upt diff_zero)
  ultimately show ?thesis using nums sizes fin by blast
qed

lemma np_round_halves:
  "np_round (5 / 2) = 2" "np_round 5 = 5" "np_round (15 / 2) = 8" "np_round 10 = 10"
  "np_round (25 / 2) = 12" "np_round (7 / 2) = 4" "np_round 7 = 7" "np_round (21 / 2) = 10"
  "np_round 14 = 14"
  by (simp_all add: np_round_def)

lemma upt_values: "[0..<3] = [0, 1, 2]" "[0..<4] = [0, 1, 2, 3]"
  by (simp_all add: upt_rec)

subsection \<open>The position invariant through the operations\<close>

lemma Datfile_read_fields:
  "infdata (snd (Datfile_read n st)) = infdata st"
  "currtime_desired (snd (Datfile_read n st)) = currtime_desired st"
  "currsample (snd (Datfile_read n st)) =
     (if inf_N (infdata st) < currsample st + n then currsample st else currsample st + n)"
  by (simp_all add: Datfile_read_def fromfile_def Let_def)

lemma read_Nsamples_fields:
  "infdata (snd (read_Nsamples n st)) = infdata st"
  "currsample (snd (read_Nsamples n st)) =
     (if inf_N (infdata st) < currsample st + n then currsample st else currsample st + n)"
proof -
  obtain r s1 where dr: "Datfile_read n st = (r, s1)" by (cases "Datfile_read n st")
  with Datfile_read_fields(1,3) [of n st]
  have s1: "infdata s1 = infdata st"
    "currsample s1 = (if inf_N (infdata st) < currsample st + n then currsample st
                      else currsample st + n)"
    by simp_all
  show "infdata (snd (read_Nsamples n st)) = infdata st"
    using dr s1(1)
    by (cases r) (simp_all add: read_Nsamples_def Datfile_update_desired_time_def Let_def)
  show "currsample (snd (read_Nsamples n st)) =
     (if inf_N (infdata st) < currsample st + n then currsample st else currsample st + n)"
    using dr s1(2)
    by (cases r) (simp_all add: read_Nsamples_def Datfile_update_desired_time_def Let_def)
qed

lemma read_Tseconds_fields:
  "infdata (snd (read_Tseconds T st)) = infdata st"
  "currsample (snd (read_Tseconds T st)) =
     (if inf_dt (infdata st) = 0 \<or>
         inf_N (infdata st) < np_round ((currtime_desired st + T) / inf_dt (infdata st))
      then currsample st
      else np_round ((currtime_desired st + T) / inf_dt (infdata st)))"
  "currtime_desired (snd (read_Tseconds T st)) =
     (if inf_dt (infdata st) = 0 \<or>
         inf_N (infdata st) < np_round ((currtime_desired st + T) / inf_dt (infdata st))
      then currtime_desired st
      else currtime_desired st + T)"
proof -
  let ?n = "np_round ((currtime_desired st + T) / inf_dt (infdata st)) - currsample st"
  obtain r s1 where dr: "Datfile_read ?n st = (r, s1)" by (cases "Datfile_read ?n st")
  have none: "r = None \<longleftrightarrow> inf_N (infdata st) < currsample st + ?n"
    using dr by (auto simp add: Datfile_read_def fromfile_def Let_def split: if_splits)
  from dr Datfile_read_fields [of ?n st]
  have s1: "infdata s1 = infdata st" "currtime_desired s1 = currtime_desired st"
    "currsample s1 = (if inf_N (infdata st) < currsample st + ?n then currsample st
                      else currsample st + ?n)"
    by simp_all
  show "infdata (snd (read_Tseconds T st)) = infdata st"
    using dr s1(1)
    by (cases r) (simp_all add: read_Tseconds_def Datfile_update_desired_time_def Let_def)
  show "currsample (snd (read_Tseconds T st)) =
     (if inf_dt (infdata st) = 0 \<or>
         inf_N (infdata st) < np_round ((currtime_desired st + T) / inf_dt (infdata st))
      then currsample st
      else np_round ((currtime_desired st + T) / inf_dt (infdata st)))"
    using dr s1(3) none
    by (cases r) (auto simp add: read_Tseconds_def Datfile_update_desired_time_def Let_def)
  show "currtime_desired (snd (read_Tseconds T st)) =
     (if inf_dt (infdata st) = 0 \<or>
         inf_N (infdata st) < np_round ((currtime_desired st + T) / inf_dt (infdata st))
      then currtime_desired st
      else currtime_desired st + T)"
    using dr s1(2) none
    by (cases r) (auto simp add: read_Tseconds_def Datfile_update_desired_time_def Let_def)
qed

lemma seek_to_fields:
  "infdata (snd (seek_to T st)) = infdata st"
  "currsample (snd (seek_to T st)) =
     (if inf_dt (infdata st) = 0 \<or> np_round (T / inf_dt (infdata st)) < 0 then 0
      else np_round (T / inf_dt (infdata st)))"
  by (simp_all add: seek_to_def Datfile_seek_def rewind_fields Let_def has_epoch_def
      split: option.splits)

lemma tracked_rewind: "0 \<le> inf_N (infdata st) \<Longrightarrow> tracked (rewind st)"
  by (simp add: tracked_def sample_inv_def rewind_fields np_round_0)

lemma tracked_read_Tseconds:
  assumes "0 < inf_dt (infdata st)" and "0 \<le> T" and "tracked st"
  shows "tracked (snd (read_Tseconds T st))"
proof -
  let ?d = "inf_dt (infdata st)"
  have "currtime_desired st / ?d \<le> (currtime_desired st + T) / ?d"
    using assms(1,2) by (simp add: divide_le_cancel)
  then have "np_round (currtime_desired st / ?d) \<le> np_round ((currtime_desired st + T) / ?d)"
    by (rule np_round_mono)
  with assms(3) show ?thesis
    by (auto simp add: tracked_def sample_inv_def read_Tseconds_fields)
qed

lemma tracked_next_pulse:
  assumes "0 < inf_dt (infdata st)" and "\<forall>mjd. 0 \<le> p mjd" and "tracked st"
  shows "tracked (snd (next_pulse p k st)) \<and>
         infdata (snd (next_pulse p k st)) = infdata st"
proof -
  have "snd (next_pulse p k st) = snd (read_Tseconds (p (currmjd_actual st)) st)"
    by (simp add: next_pulse_def Let_def split: prod.splits sum.splits option.splits)
  moreover have "0 \<le> p (currmjd_actual st)" using assms(2) by simp
  ultimately show ?thesis
    using tracked_read_Tseconds [OF assms(1) _ assms(3)] by (simp add: read_Tseconds_fields)
qed

lemma tracked_pulses_rest:
  assumes "0 < inf_dt info" and "\<forall>mjd. 0 \<le> p mjd"
  shows "infdata (snd x) = info \<Longrightarrow> tracked (snd x) \<Longrightarrow>
         pulses_rest p fuel k x = Some (r, st') \<Longrightarrow> tracked st'"
proof (induction fuel arbitrary: k x r st')
  case 0
  then show ?case by simp
next
  case (Suc fuel)
  obtain y st where x: "x = (y, st)" by (cases x)
  show ?case
  proof (cases y)
    case (Inl e)
    with Suc.prems x show ?thesis by simp
  next
    case (Inr o1)
    show ?thesis
    proof (cases o1)
      case None
      with Suc.prems x Inr show ?thesis by simp
    next
      case (Some pl)
      have dt: "0 < inf_dt (infdata st)" using assms(1) Suc.prems(1) x by simp
      have tr: "tracked st" using Suc.prems(2) x by simp
      from tracked_next_pulse [OF dt assms(2) tr, of "k + 1"] Suc.prems(1) x
      have nxt: "infdata (snd (next_pulse p (k + 1) st)) = info"
        "tracked (snd (next_pulse p (k + 1) st))"
        by simp_all
      from Suc.prems(3) x Inr Some
      obtain r1 st1 where
        rec: "pulses_rest p fuel (k + 1) (next_pulse p (k + 1) st) = Some (r1, st1)"
        and st1: "st1 = st'"
        by (auto split: option.splits sum.splits)
      from Suc.IH [OF nxt rec] st1 show ?thesis by simp
    qed
  qed
qed

lemma tracked_pulses:
  assumes "sample_inv st" and "0 < inf_dt (infdata st)" and "\<forall>mjd. 0 \<le> p mjd"
    and "pulses p fuel skip st = Some (r, st')"
  shows "sample_inv st'"
proof (cases "has_epoch st")
  case False
  then have "pulses_start p skip st = (Inl NotImplementedError, st)"
    by (simp add: pulses_start_def)
  with assms(4) have "st' = st"
    by (cases fuel) (simp_all add: pulses_def)
  with assms(1) show ?thesis by simp
next
  case True
  let ?s1 = "if skip > 0 then snd (read_Tseconds skip (rewind st)) else rewind st"
  have N: "0 \<le> inf_N (infdata st)" using assms(1) by (simp add: sample_inv_def)
  have dtr: "0 < inf_dt (infdata (rewind st))" using assms(2) by (simp add: rewind_fields)
  have s1: "tracked ?s1 \<and> infdata ?s1 = infdata st"
    using tracked_rewind [OF N] tracked_read_Tseconds [OF dtr, of skip]
    by (simp add: read_Tseconds_fields rewind_fields)
  have dt1: "0 < inf_dt (infdata ?s1)" using s1 assms(2) by simp
  have start: "pulses_start p skip st = next_pulse p 1 ?s1 \<or>
               (\<exists>e. pulses_start p skip st = (Inl e, ?s1))"
    using True
    by (cases "read_Tseconds skip (rewind st)")
       (auto simp add: pulses_start_def Let_def split: sum.splits)
  from tracked_next_pulse [OF dt1 assms(3), of 1] s1
  have nxt: "tracked (snd (next_pulse p 1 ?s1))" "infdata (snd (next_pulse p 1 ?s1)) = infdata st"
    by simp_all
  from start s1 nxt
  have "tracked (snd (pulses_start p skip st)) \<and>
        infdata (snd (pulses_start p skip st)) = infdata st"
    by auto
  with tracked_pulses_rest [OF assms(2,3), of "pulses_start p skip st" fuel 1 r st'] assms(4)
  have "tracked st'" by (simp add: pulses_def)
  then show ?thesis by (simp add: tracked_def)
qed

lemma tracked_baseline_loop:
  assumes "0 < inf_dt info" and "0 \<le> spn"
  shows "infdata st = info \<Longrightarrow> tracked st \<Longrightarrow>
         baseline_loop median spn fuel istart block xx meds iend st = Some (r, st') \<Longrightarrow>
         tracked st'"
proof (induction fuel arbitrary: istart block xx meds iend st)
  case 0
  then show ?case by simp
next
  case (Suc fuel)
  show ?case
  proof (cases block)
    case None
    with Suc.prems show ?thesis by simp
  next
    case (Some b)
    have dt: "0 < inf_dt (infdata st)" using assms(1) Suc.prems(1) by simp
    obtain y s1 where rd: "read_Tseconds spn st = (y, s1)" by (cases "read_Tseconds spn st")
    from tracked_read_Tseconds [OF dt assms(2) Suc.prems(2)] read_Tseconds_fields(1) [of spn st]
      rd Suc.prems(1)
    have s1: "infdata s1 = info" "tracked s1" by simp_all
    show ?thesis
    proof (cases y)
      case (Inl e)
      with Suc.prems(3) Some rd s1 show ?thesis by (simp add: Let_def)
    next
      case (Inr block1)
      with Suc.prems(3) Some rd
      have "baseline_loop median spn fuel (istart + int (length b)) block1
              (xx @ [0.5 * (of_int istart + of_int (istart + int (length b)))])
              (meds @ [median b]) (Some (istart + int (length b))) s1 = Some (r, st')"
        by (simp add: Let_def)
      from Suc.IH [OF s1 this] show ?thesis .
    qed
  qed
qed

lemma tracked_get_baseline_spline:
  assumes "sample_inv st" and "0 < inf_dt (infdata st)" and "0 \<le> spn"
    and "get_baseline_spline median fuel spn st = Some (r, st')"
  shows "sample_inv st'"
proof -
  have N: "0 \<le> inf_N (infdata st)" using assms(1) by (simp add: sample_inv_def)
  have dtr: "0 < inf_dt (infdata (rewind st))" using assms(2) by (simp add: rewind_fields)
  obtain y s1 where rd: "read_Tseconds spn (rewind st) = (y, s1)"
    by (cases "read_Tseconds spn (rewind st)")
  from tracked_read_Tseconds [OF dtr assms(3) tracked_rewind [OF N]]
    read_Tseconds_fields(1) [of spn "rewind st"] rd
  have s1: "infdata s1 = infdata st" "tracked s1" by (simp_all add: rewind_fields)
  show ?thesis
  proof (cases y)
    case (Inl e)
    with assms(4) rd s1 show ?thesis by (simp add: get_baseline_spline_def tracked_def)
  next
    case (Inr block)
    with assms(4) rd
    obtain r1 where "baseline_loop median spn fuel 0 block [] [] None s1 = Some (r1, st')"
      by (auto simp add: get_baseline_spline_def split: option.splits sum.splits prod.splits)
    from tracked_baseline_loop [OF assms(2,3) s1 this] show ?thesis
      by (simp add: tracked_def)
  qed
qed

lemma Datfile_init_rewound:
  "Datfile_init files infs fn = Inr st \<Longrightarrow> \<exists>x. st = rewind x"
  by (auto simp add: Datfile_init_def Let_def split: if_splits option.splits prod.splits
      sum.splits)

lemma np_round_15: "np_round 15 = 15"
  using np_round_of_int [of 15] by simp

lemma baseline_demo_runs:
  "\<exists>r st'. get_baseline_spline block_median 3 5 demo_reader = Some (r, st')"
proof -
  let ?r0 = "rewind demo_reader"
  have f0: "inf_dt (infdata ?r0) \<noteq> 0"
    "np_round ((currtime_desired ?r0 + 5) / inf_dt (infdata ?r0)) = 5"
    "currsample ?r0 = 0" "inf_N (infdata ?r0) = 10"
    by (simp_all add: rewind_fields demo_reader_fields demo_inf_fields np_round_halves)
  from read_Tseconds_Some [OF f0(1), of 5] f0
  obtain b1 s1 where r1: "read_Tseconds 5 ?r0 = (Inr (Some b1), s1)"
    and c1: "currsample s1 = 5" "currtime_desired s1 = 5" "infdata s1 = demo_inf"
    by (auto simp add: rewind_fields demo_reader_fields)
  have f1: "inf_dt (infdata s1) \<noteq> 0"
    "np_round ((currtime_desired s1 + 5) / inf_dt (infdata s1)) = 10"
    "inf_N (infdata s1) = 10"
    using c1 by (simp_all add: demo_inf_fields np_round_halves)
  from read_Tseconds_Some [OF f1(1), of 5] f1 c1
  obtain b2 s2 where r2: "read_Tseconds 5 s1 = (Inr (Some b2), s2)"
    and c2: "currsample s2 = 10" "currtime_desired s2 = 10" "infdata s2 = demo_inf"
    by auto
  have f2: "inf_dt (infdata s2) \<noteq> 0"
    "inf_N (infdata s2) < np_round ((currtime_desired s2 + 5) / inf_dt (infdata s2))"
    using c2 by (simp_all add: demo_inf_fields np_round_15)
  have r3: "read_Tseconds 5 s2 = (Inr None, s2)"
    by (rule read_Tseconds_None [OF f2])
  show ?thesis
    by (simp add: get_baseline_spline_def numeral_3_eq_3 r1 r2 r3 Let_def)
qed

subsection \<open>The pulse generator, read by read\<close>

lemma read_Tseconds_None_state:
  "read_Tseconds T s = (Inr None, s1) \<Longrightarrow> s1 = s"
  by (auto simp add: read_Tseconds_def Datfile_read_def fromfile_def Let_def
      split: if_splits prod.splits option.splits)

lemma read_Tseconds_block:
  assumes "read_Tseconds T s = (Inr (Some blk), s1)"
  shows "inf_dt (infdata s) \<noteq> 0 \<and>
         np_round ((currtime_desired s + T) / inf_dt (infdata s)) \<le> inf_N (infdata s) \<and>
         blk = (if np_round ((currtime_desired s + T) / inf_dt (infdata s)) - currsample s < 0
                then drop (fpos s) (datfile s)
                else take (nat (np_round ((currtime_desired s + T) / inf_dt (infdata s))
                                - currsample s))
                       (drop (fpos s) (datfile s))) \<and>
         fpos s1 = fpos s + length blk \<and> datfile s1 = datfile s"
proof -
  let ?n = "np_round ((currtime_desired s + T) / inf_dt (infdata s)) - currsample s"
  have dt: "inf_dt (infdata s) \<noteq> 0"
    using assms by (auto simp add: read_Tseconds_def)
  have le: "currsample s + ?n \<le> inf_N (infdata s)"
  proof (rule ccontr)
    assume "\<not> currsample s + ?n \<le> inf_N (infdata s)"
    then have "Datfile_read ?n s = (None, s)" by (simp add: Datfile_read_None)
    with assms dt show False by (simp add: read_Tseconds_def)
  qed
  show ?thesis
    using assms dt le
    by (auto simp add: read_Tseconds_def Datfile_read_Some [OF le]
        Datfile_update_desired_time_def has_epoch_def Let_def)
qed

lemma next_pulse_constant:
  "next_pulse (constant_period P) k s = (Inr (Some pl), s1) \<Longrightarrow>
     read_Tseconds P s = (Inr (Some (pulse_profile pl)), s1) \<and> pulse_number pl = k"
  "next_pulse (constant_period P) k s = (Inr None, s1) \<Longrightarrow>
     read_Tseconds P s = (Inr None, s1)"
  by (auto simp add: next_pulse_def constant_period_def Let_def
      split: prod.splits sum.splits option.splits)

lemma pulses_rest_steps:
  "pulses_rest (constant_period P) fuel k (next_pulse (constant_period P) k s)
     = Some (Inr ps, st') \<Longrightarrow>
   st' = ((\<lambda>s. snd (read_Tseconds P s)) ^^ length ps) s \<and>
   (\<forall>i < length ps.
      read_Tseconds P (((\<lambda>s. snd (read_Tseconds P s)) ^^ i) s)
        = (Inr (Some (pulse_profile (ps ! i))),
           ((\<lambda>s. snd (read_Tseconds P s)) ^^ Suc i) s) \<and>
      pulse_number (ps ! i) = k + int i) \<and>
   read_Tseconds P st' = (Inr None, st')"
proof (induction fuel arbitrary: k s ps)
  case 0
  then show ?case by simp
next
  case (Suc fuel)
  let ?f = "\<lambda>s. snd (read_Tseconds P s)"
  obtain y s1 where np: "next_pulse (constant_period P) k s = (y, s1)"
    by (cases "next_pulse (constant_period P) k s")
  show ?case
  proof (cases y)
    case (Inl e)
    with Suc.prems np show ?thesis by simp
  next
    case (Inr o1)
    show ?thesis
    proof (cases o1)
      case None
      with Suc.prems np Inr have ps: "ps = []" and st': "st' = s1" by simp_all
      from next_pulse_constant(2) [of P k s s1] np Inr None
      have rd: "read_Tseconds P s = (Inr None, s1)" by simp
      then have "s1 = s" by (rule read_Tseconds_None_state)
      with ps st' rd show ?thesis by simp
    next
      case (Some pl)
      from next_pulse_constant(1) [of P k s pl s1] np Inr Some
      have rd: "read_Tseconds P s = (Inr (Some (pulse_profile pl)), s1)"
        and num: "pulse_number pl = k"
        by simp_all
      from Suc.prems np Inr Some
      obtain ps1 where
        rec: "pulses_rest (constant_period P) fuel (k + 1)
                (next_pulse (constant_period P) (k + 1) s1) = Some (Inr ps1, st')"
        and ps: "ps = pl # ps1"
        by (auto split: option.splits sum.splits prod.splits)
      note ih = Suc.IH [OF rec]
      have end1: "st' = (?f ^^ length ps1) s1"
        using ih by blast
      have steps1: "\<forall>i < length ps1.
            read_Tseconds P ((?f ^^ i) s1)
              = (Inr (Some (pulse_profile (ps1 ! i))), (?f ^^ Suc i) s1) \<and>
            pulse_number (ps1 ! i) = k + 1 + int i"
        using ih by blast
      have fin: "read_Tseconds P st' = (Inr None, st')"
        using ih by blast
      have f1: "?f s = s1" using rd by simp
      have shift: "(?f ^^ Suc i) s = (?f ^^ i) s1" for i
      proof -
        have "(?f ^^ Suc i) s = (?f ^^ i) (?f s)"
          by (simp only: funpow_Suc_right o_apply)
        then show ?thesis using f1 by simp
      qed
      have "st' = (?f ^^ length ps) s"
        using end1 ps shift by (simp del: funpow.simps)
      moreover have "\<forall>i < length ps.
            read_Tseconds P ((?f ^^ i) s)
              = (Inr (Some (pulse_profile (ps ! i))), (?f ^^ Suc i) s) \<and>
            pulse_number (ps ! i) = k + int i"
      proof (intro allI impI)
        fix i assume i: "i < length ps"
        show "read_Tseconds P ((?f ^^ i) s)
              = (Inr (Some (pulse_profile (ps ! i))), (?f ^^ Suc i) s) \<and>
            pulse_number (ps ! i) = k + int i"
        proof (cases i)
          case 0
          with rd num ps f1 show ?thesis by simp
        next
          case (Suc j)
          with i ps have j: "j < length ps1" by simp
          from steps1 j have
            "read_Tseconds P ((?f ^^ j) s1)
              = (Inr (Some (pulse_profile (ps1 ! j))), (?f ^^ Suc j) s1) \<and>
             pulse_number (ps1 ! j) = k + 1 + int j"
            by blast
          then show ?thesis
            using Suc ps shift [of j] shift [of "Suc j"] by (simp del: funpow.simps)
        qed
      qed
      ultimately show ?thesis using fin by blast
    qed
  qed
qed

lemma aligned_step:
  assumes dt: "0 < inf_dt (infdata s)" and P: "0 \<le> P"
    and len: "inf_N (infdata s) \<le> int (length (datfile s))"
    and fp: "int (fpos s) = currsample s"
    and cs: "currsample s \<le> np_round (currtime_desired s / inf_dt (infdata s))"
  shows "infdata (snd (read_Tseconds P s)) = infdata s \<and>
         datfile (snd (read_Tseconds P s)) = datfile s \<and>
         int (fpos (snd (read_Tseconds P s))) = currsample (snd (read_Tseconds P s)) \<and>
         currsample (snd (read_Tseconds P s))
           \<le> np_round (currtime_desired (snd (read_Tseconds P s)) / inf_dt (infdata s))"
proof -
  let ?d = "inf_dt (infdata s)"
  let ?e = "np_round ((currtime_desired s + P) / ?d)"
  have dt0: "?d \<noteq> 0" using dt by simp
  have "currtime_desired s / ?d \<le> (currtime_desired s + P) / ?d"
    using dt P by (simp add: divide_le_cancel)
  then have "np_round (currtime_desired s / ?d) \<le> ?e" by (rule np_round_mono)
  with cs have ce: "currsample s \<le> ?e" by simp
  show ?thesis
  proof (cases "?e \<le> inf_N (infdata s)")
    case True
    from read_Tseconds_Some [OF dt0 True ce]
    obtain s1 where r: "read_Tseconds P s =
        (Inr (Some (take (nat (?e - currsample s)) (drop (fpos s) (datfile s)))), s1)"
      and c1: "currsample s1 = ?e" and d1: "currtime_desired s1 = currtime_desired s + P"
      and f1: "fpos s1 = fpos s +
          length (take (nat (?e - currsample s)) (drop (fpos s) (datfile s)))"
      and i1: "infdata s1 = infdata s" and df1: "datfile s1 = datfile s"
      by blast
    have "fpos s + nat (?e - currsample s) \<le> length (datfile s)"
      using fp ce True len by linarith
    then have "length (take (nat (?e - currsample s)) (drop (fpos s) (datfile s)))
        = nat (?e - currsample s)"
      by simp
    with f1 fp ce have "int (fpos s1) = ?e" by simp
    with r c1 d1 i1 df1 show ?thesis by simp
  next
    case False
    then have "read_Tseconds P s = (Inr None, s)"
      by (intro read_Tseconds_None [OF dt0]) simp
    with fp cs show ?thesis by simp
  qed
qed

lemma pulse_state_Suc:
  "pulse_state P (Suc k) st = snd (read_Tseconds P (pulse_state P k st))"
  by (simp add: pulse_state_def)

lemma pulse_state_aligned:
  assumes "0 < inf_dt (infdata st)" and "0 \<le> P"
    and "inf_N (infdata st) \<le> int (length (datfile st))"
  shows "infdata (pulse_state P k st) = infdata st \<and>
         datfile (pulse_state P k st) = datfile st \<and>
         int (fpos (pulse_state P k st)) = currsample (pulse_state P k st) \<and>
         currsample (pulse_state P k st)
           \<le> np_round (currtime_desired (pulse_state P k st) / inf_dt (infdata st))"
proof (induction k)
  case 0
  show ?case by (simp add: pulse_state_def rewind_fields np_round_0)
next
  case (Suc k)
  let ?s = "pulse_state P k st"
  have "0 < inf_dt (infdata ?s)" and "inf_N (infdata ?s) \<le> int (length (datfile ?s))"
    and "int (fpos ?s) = currsample ?s"
    and "currsample ?s \<le> np_round (currtime_desired ?s / inf_dt (infdata ?s))"
    using Suc.IH assms by simp_all
  from aligned_step [OF this(1) assms(2) this(2,3,4)] Suc.IH
  show ?case by (simp only: pulse_state_Suc)
qed

lemma pulse_state_read:
  assumes dt: "0 < inf_dt (infdata st)" and P: "0 \<le> P"
    and len: "inf_N (infdata st) \<le> int (length (datfile st))"
    and rd: "read_Tseconds P (pulse_state P i st) = (Inr (Some blk), s1)"
  shows "int (length blk) =
           np_round ((currtime_desired (pulse_state P i st) + P) / inf_dt (infdata st))
           - currsample (pulse_state P i st) \<and>
         currtime_desired (pulse_state P (Suc i) st)
           = currtime_desired (pulse_state P i st) + P \<and>
         currsample (pulse_state P (Suc i) st)
           = np_round ((currtime_desired (pulse_state P i st) + P) / inf_dt (infdata st))"
proof -
  let ?s = "pulse_state P i st"
  let ?d = "inf_dt (infdata st)"
  let ?e = "np_round ((currtime_desired ?s + P) / ?d)"
  from pulse_state_aligned [OF dt P len, of i]
  have i: "infdata ?s = infdata st" and df: "datfile ?s = datfile st"
    and fp: "int (fpos ?s) = currsample ?s"
    and cs: "currsample ?s \<le> np_round (currtime_desired ?s / ?d)"
    by simp_all
  have "currtime_desired ?s / ?d \<le> (currtime_desired ?s + P) / ?d"
    using dt P by (simp add: divide_le_cancel)
  then have "np_round (currtime_desired ?s / ?d) \<le> ?e" by (rule np_round_mono)
  with cs have ce: "currsample ?s \<le> ?e" by simp
  from read_Tseconds_block [OF rd] i
  have eN: "?e \<le> inf_N (infdata st)"
    and blk: "blk = (if ?e - currsample ?s < 0 then drop (fpos ?s) (datfile ?s)
                     else take (nat (?e - currsample ?s)) (drop (fpos ?s) (datfile ?s)))"
    by simp_all
  have "fpos ?s + nat (?e - currsample ?s) \<le> length (datfile st)"
    using fp ce eN len by linarith
  then have room: "fpos ?s + nat (?e - currsample ?s) \<le> length (datfile ?s)"
    by (simp only: df)
  have size: "int (length blk) = ?e - currsample ?s"
    using blk ce room by simp
  have dt0: "inf_dt (infdata ?s) \<noteq> 0" using dt i by simp
  have "currtime_desired (snd (read_Tseconds P ?s)) = currtime_desired ?s + P"
    and "currsample (snd (read_Tseconds P ?s)) = ?e"
    using dt0 eN i by (simp_all add: read_Tseconds_fields)
  with size show ?thesis by (simp only: pulse_state_Suc)
qed

lemma pulses_constant_steps:
  assumes dt: "0 < inf_dt (infdata st)" and P: "0 \<le> P" and ep: "has_epoch st"
    and len: "inf_N (infdata st) \<le> int (length (datfile st))"
    and run: "pulses (constant_period P) fuel 0 st = Some (Inr ps, st')"
  shows "st' = pulse_state P (length ps) st \<and>
         map pulse_number ps = map (\<lambda>i. int i + 1) [0..<length ps] \<and>
         (\<forall>i < length ps.
            read_Tseconds P (pulse_state P i st)
              = (Inr (Some (pulse_profile (ps ! i))), pulse_state P (Suc i) st) \<and>
            int (length (pulse_profile (ps ! i))) =
              np_round ((currtime_desired (pulse_state P i st) + P) / inf_dt (infdata st))
              - currsample (pulse_state P i st) \<and>
            currtime_desired (pulse_state P (Suc i) st)
              = currtime_desired (pulse_state P i st) + P \<and>
            currsample (pulse_state P (Suc i) st)
              = np_round ((currtime_desired (pulse_state P i st) + P)
                          / inf_dt (infdata st))) \<and>
         read_Tseconds P st' = (Inr None, st')"
proof -
  have "pulses_rest (constant_period P) fuel 1 (next_pulse (constant_period P) 1 (rewind st))
      = Some (Inr ps, st')"
    using run ep by (simp add: pulses_def pulses_start_def)
  note all = pulses_rest_steps [OF this, folded pulse_state_def]
  have end1: "st' = pulse_state P (length ps) st"
    using all by blast
  have steps: "\<forall>i < length ps.
        read_Tseconds P (pulse_state P i st)
          = (Inr (Some (pulse_profile (ps ! i))), pulse_state P (Suc i) st) \<and>
        pulse_number (ps ! i) = 1 + int i"
    using all by blast
  have fin: "read_Tseconds P st' = (Inr None, st')"
    using all by blast
  have nums: "map pulse_number ps = map (\<lambda>i. int i + 1) [0..<length ps]"
    using steps by (intro nth_equalityI) simp_all
  have "\<forall>i < length ps.
      read_Tseconds P (pulse_state P i st)
        = (Inr (Some (pulse_profile (ps ! i))), pulse_state P (Suc i) st) \<and>
      int (length (pulse_profile (ps ! i))) =
        np_round ((currtime_desired (pulse_state P i st) + P) / inf_dt (infdata st))
        - currsample (pulse_state P i st) \<and>
      currtime_desired (pulse_state P (Suc i) st)
        = currtime_desired (pulse_state P i st) + P \<and>
      currsample (pulse_state P (Suc i) st)
        = np_round ((currtime_desired (pulse_state P i st) + P) / inf_dt (infdata st))"
  proof (intro allI impI)
    fix i assume "i < length ps"
    with steps have rd: "read_Tseconds P (pulse_state P i st)
        = (Inr (Some (pulse_profile (ps ! i))), pulse_state P (Suc i) st)"
      by blast
    from pulse_state_read [OF dt P len rd] rd
    show "read_Tseconds P (pulse_state P i st)
        = (Inr (Some (pulse_profile (ps ! i))), pulse_state P (Suc i) st) \<and>
      int (length (pulse_profile (ps ! i))) =
        np_round ((currtime_desired (pulse_state P i st) + P) / inf_dt (infdata st))
        - currsample (pulse_state P i st) \<and>
      currtime_desired (pulse_state P (Suc i) st)
        = currtime_desired (pulse_state P i st) + P \<and>
      currsample (pulse_state P (Suc i) st)
        = np_round ((currtime_desired (pulse_state P i st) + P) / inf_dt (infdata st))"
      by blast
  qed
  with end1 nums fin show ?thesis by blast
qed

section \<open>Reading a number of samples\<close>

text \<open>
  Claim C1, as the code has it. When fewer than \<open>n\<close> samples remain
  (\<open>currsample + n > N\<close>), \<open>read_Nsamples n\<close> returns \<open>None\<close> and the reader is
  unchanged, whatever \<open>n\<close> is. When they remain, \<open>n\<close> is not negative and the file
  holds \<open>n\<close> samples from its position on, the call returns a block of exactly \<open>n\<close>
  samples, adds \<open>n\<close> to the sample counter and \<open>n * dt\<close> to both clocks
  (\<open>n * dt / 86400\<close> days to both MJDs when there is an epoch).
\<close>

theorem read_Nsamples_sentinel_or_block:
  "(inf_N (infdata st) < currsample st + n \<longrightarrow> read_Nsamples n st = (None, st)) \<and>
   (currsample st + n \<le> inf_N (infdata st) \<and> 0 \<le> n \<and>
      fpos st + nat n \<le> length (datfile st) \<longrightarrow>
      (\<exists>blk st'. read_Nsamples n st = (Some blk, st') \<and>
         int (length blk) = n \<and>
         currsample st' = currsample st + n \<and>
         currtime_actual st' = currtime_actual st + of_int n * inf_dt (infdata st) \<and>
         currtime_desired st' = currtime_desired st + of_int n * inf_dt (infdata st) \<and>
         (has_epoch st \<longrightarrow>
            currmjd_actual st' = currmjd_actual st + of_int n * inf_dt (infdata st) / 86400 \<and>
            currmjd_desired st' =
              currmjd_desired st + of_int n * inf_dt (infdata st) / 86400)))"
  by (auto simp add: read_Nsamples_def Datfile_read_None Datfile_read_Some
      Datfile_update_desired_time_def has_epoch_def SECPERDAY_def Let_def mult.commute)

text \<open>
  Both branches on the example: eleven samples are more than the file has, three are
  not.
\<close>

theorem read_Nsamples_sentinel_or_block_witness:
  "read_Nsamples 11 demo_reader = (None, demo_reader) \<and>
   (\<exists>blk st'. read_Nsamples 3 demo_reader = (Some blk, st') \<and> int (length blk) = 3 \<and>
      currsample st' = 3 \<and> currtime_actual st' = 3 \<and> currtime_desired st' = 3 \<and>
      currmjd_actual st' = 50000 + 3 / 86400 \<and> currmjd_desired st' = 50000 + 3 / 86400)"
  using read_Nsamples_sentinel_or_block [of demo_reader 11]
    read_Nsamples_sentinel_or_block [of demo_reader 3]
  by (simp add: demo_reader_def demo_inf_def has_epoch_def)

text \<open>
  A negative count is not refused. After five samples have been read, a request for
  \<open>- 1\<close> samples passes the test \<open>currsample + n \<le> N\<close>, returns the five
  samples that are left (not a block of \<open>- 1\<close> samples), moves the sample counter back
  to 4 and leaves the file at its end.
\<close>

theorem read_Nsamples_negative_count:
  "currsample (snd (read_Nsamples 5 demo_reader)) + (- 1)
     \<le> inf_N (infdata (snd (read_Nsamples 5 demo_reader))) \<and>
   fst (read_Nsamples (- 1) (snd (read_Nsamples 5 demo_reader))) = Some [5, 6, 7, 8, 9] \<and>
   currsample (snd (read_Nsamples (- 1) (snd (read_Nsamples 5 demo_reader)))) = 4 \<and>
   fpos (snd (read_Nsamples (- 1) (snd (read_Nsamples 5 demo_reader)))) = 10"
  by (simp add: read_Nsamples_def Datfile_read_def fromfile_def has_epoch_def
      Datfile_update_desired_time_def demo_reader_def demo_inf_def Let_def)

text \<open>
  Claim C5. From a position with \<open>r = N - currsample\<close> samples left and for
  \<open>0 \<le> n \<le> r\<close>, reading \<open>n\<close> samples and then \<open>r - n\<close> gives two blocks whose
  concatenation is the block that one read of \<open>r\<close> samples gives from the same position.
\<close>

theorem read_Nsamples_split:
  assumes "0 \<le> n" and "n \<le> inf_N (infdata st) - currsample st"
  shows "\<exists>b1 s1 b2 s2 b s.
           read_Nsamples n st = (Some b1, s1) \<and>
           read_Nsamples (inf_N (infdata st) - currsample st - n) s1 = (Some b2, s2) \<and>
           read_Nsamples (inf_N (infdata st) - currsample st) st = (Some b, s) \<and>
           b1 @ b2 = b"
proof -
  let ?r = "inf_N (infdata st) - currsample st"
  let ?rest = "drop (fpos st) (datfile st)"
  have "currsample st + n \<le> inf_N (infdata st)" using assms by simp
  from read_Nsamples_ok [OF this assms(1)]
  obtain s1 where r1: "read_Nsamples n st = (Some (take (nat n) ?rest), s1)"
    and f1: "fpos s1 = fpos st + length (take (nat n) ?rest)"
    and d1: "datfile s1 = datfile st"
    and c1: "currsample s1 = currsample st + n"
    and i1: "infdata s1 = infdata st"
    by blast
  have "currsample s1 + (?r - n) \<le> inf_N (infdata s1)" and "0 \<le> ?r - n"
    using assms c1 i1 by simp_all
  from read_Nsamples_ok [OF this]
  obtain s2 where
    r2: "read_Nsamples (?r - n) s1 =
           (Some (take (nat (?r - n)) (drop (fpos s1) (datfile s1))), s2)"
    by blast
  have "currsample st + ?r \<le> inf_N (infdata st)" and "0 \<le> ?r"
    using assms by simp_all
  from read_Nsamples_ok [OF this]
  obtain s where r: "read_Nsamples ?r st = (Some (take (nat ?r) ?rest), s)"
    by blast
  have split: "nat ?r = nat n + nat (?r - n)" using assms by linarith
  have "drop (fpos s1) (datfile s1) = drop (length (take (nat n) ?rest)) ?rest"
    by (simp only: f1 d1 drop_drop add.commute)
  then have "take (nat n) ?rest @ take (nat (?r - n)) (drop (fpos s1) (datfile s1))
             = take (nat ?r) ?rest"
    by (simp only: split take_take_drop)
  with r1 r2 r show ?thesis by blast
qed

text \<open>On the example: four samples and then six, against all ten at once.\<close>

theorem read_Nsamples_split_witness:
  "\<exists>b1 s1 b2 s2 b s.
      read_Nsamples 4 demo_reader = (Some b1, s1) \<and>
      read_Nsamples 6 s1 = (Some b2, s2) \<and>
      read_Nsamples 10 demo_reader = (Some b, s) \<and>
      b1 @ b2 = b"
  using read_Nsamples_split [of 4 demo_reader]
  by (simp add: demo_reader_def demo_inf_def)

section \<open>Reading a duration\<close>

text \<open>
  Claim C2. For a sample interval that is not zero, \<open>read_Tseconds T\<close> hands the
  count \<open>np_round ((currtime_desired + T) / dt) - currsample\<close> to \<open>Datfile_read\<close>.
  When that read gives \<open>None\<close> the reader is unchanged, so the desired time is not
  advanced. When it gives a block, the call returns that block and the state of the read
  with the desired time advanced by exactly \<open>T\<close>, and the desired MJD by \<open>T / 86400\<close>
  when there is an epoch, whatever the count was.
\<close>

theorem read_Tseconds_desired_clock:
  assumes "inf_dt (infdata st) \<noteq> 0"
  shows "case Datfile_read
           (np_round ((currtime_desired st + T) / inf_dt (infdata st)) - currsample st) st of
      (None, st1) \<Rightarrow> read_Tseconds T st = (Inr None, st)
    | (Some blk, st1) \<Rightarrow>
        read_Tseconds T st =
          (Inr (Some blk),
           st1\<lparr>currtime_desired := currtime_desired st + T,
               currmjd_desired := (if has_epoch st then currmjd_desired st + T / 86400
                                   else currmjd_desired st)\<rparr>)"
proof (cases "inf_N (infdata st) <
    currsample st + (np_round ((currtime_desired st + T) / inf_dt (infdata st)) - currsample st)")
  case True
  then show ?thesis
    using assms by (simp add: read_Tseconds_def Datfile_read_None)
next
  case False
  then have le:
    "currsample st + (np_round ((currtime_desired st + T) / inf_dt (infdata st)) - currsample st)
       \<le> inf_N (infdata st)"
    by simp
  show ?thesis
    using assms
    by (simp add: read_Tseconds_def Datfile_read_Some [OF le] Datfile_update_desired_time_def
        has_epoch_def SECPERDAY_def Let_def)
qed

text \<open>
  On the example: two and a half seconds from the start are two samples, and the desired
  clock stands at 2.5 while the actual clock stands at 2.
\<close>

theorem read_Tseconds_desired_clock_witness:
  "read_Tseconds (5 / 2) demo_reader =
     (Inr (Some [0, 1]),
      demo_reader\<lparr>fpos := 2, currsample := 2, currtime_actual := 2, currtime_desired := 5 / 2,
         currmjd_actual := 50000 + 2 / 86400, currmjd_desired := 50000 + (5 / 2) / 86400\<rparr>)"
  using read_Tseconds_desired_clock [of demo_reader "5 / 2"]
  by (simp add: demo_reader_def demo_inf_def np_round_def Datfile_read_def fromfile_def
      has_epoch_def SECPERDAY_def Let_def)

text \<open>
  Claim C10, as the code has it. When the sample interval is not zero, the rounded end
  sample \<open>np_round ((currtime_desired + T) / dt)\<close> is the current sample and the
  current sample is not beyond the end of the series, \<open>read_Tseconds T\<close> returns an
  empty block, not \<open>None\<close>. It advances the desired time by exactly \<open>T\<close> (and the
  desired MJD by \<open>T / 86400\<close>), and leaves the sample counter, the actual time and
  MJD and the file position as they were.
\<close>

theorem read_Tseconds_sub_sample:
  assumes "inf_dt (infdata st) \<noteq> 0"
    and "np_round ((currtime_desired st + T) / inf_dt (infdata st)) = currsample st"
    and "currsample st \<le> inf_N (infdata st)"
  shows "read_Tseconds T st =
           (Inr (Some []),
            st\<lparr>currtime_desired := currtime_desired st + T,
               currmjd_desired := (if has_epoch st then currmjd_desired st + T / 86400
                                   else currmjd_desired st)\<rparr>)"
proof -
  have le: "currsample st + 0 \<le> inf_N (infdata st)" using assms(3) by simp
  show ?thesis
    using assms(1,2)
    by (simp add: read_Tseconds_def Datfile_read_Some [OF le] Datfile_update_desired_time_def
        has_epoch_def SECPERDAY_def Let_def)
qed

text \<open>On the example: a quarter of a second from the start.\<close>

theorem read_Tseconds_sub_sample_witness:
  "read_Tseconds (1 / 4) demo_reader =
     (Inr (Some []),
      demo_reader\<lparr>currtime_desired := 1 / 4, currmjd_desired := 50000 + (1 / 4) / 86400\<rparr>)"
  using read_Tseconds_sub_sample [of demo_reader "1 / 4"]
  by (simp add: demo_reader_fields demo_inf_fields np_round_values has_epoch_def)

text \<open>
  Beyond the end of the series the same request gives \<open>None\<close>. \<open>seek_to 20\<close> puts
  the example reader at sample 20 of 10; a quarter of a second from there rounds to
  sample 20 again, and the read of zero samples is refused because \<open>20 + 0 > 10\<close>.
\<close>

theorem read_Tseconds_sub_sample_past_end:
  "(0::real) < 1 / 4 \<and>
   np_round ((currtime_desired (snd (seek_to 20 demo_reader)) + 1 / 4)
             / inf_dt (infdata (snd (seek_to 20 demo_reader))))
     = currsample (snd (seek_to 20 demo_reader)) \<and>
   read_Tseconds (1 / 4) (snd (seek_to 20 demo_reader))
     = (Inr None, snd (seek_to 20 demo_reader))"
  by (simp add: seek_to_20 read_Tseconds_def Datfile_read_def np_round_values
      demo_reader_fields demo_inf_fields Let_def)

section \<open>Seeking\<close>

text \<open>
  Claim C3 at a concrete input. The example has epoch MJD 50000 and one sample a second.
  \<open>seek_to 2\<close> returns 2, puts the sample counter and the actual time at 2 and the
  desired MJD at \<open>50000 + 2 / 86400\<close>, but the actual MJD at \<open>2 / 86400\<close>: the
  offset alone, without the epoch.
\<close>

theorem seek_to_actual_mjd_without_epoch:
  "inf_epoch (infdata demo_reader) = Some 50000 \<and>
   fst (seek_to 2 demo_reader) = Inr 2 \<and>
   currsample (snd (seek_to 2 demo_reader)) = 2 \<and>
   currtime_actual (snd (seek_to 2 demo_reader)) = 2 \<and>
   currtime_desired (snd (seek_to 2 demo_reader)) = 2 \<and>
   currmjd_desired (snd (seek_to 2 demo_reader)) = 50000 + 2 / 86400 \<and>
   currmjd_actual (snd (seek_to 2 demo_reader)) = 2 / 86400"
  by (simp add: seek_to_2 demo_reader_fields demo_inf_fields)

section \<open>Construction and load-time corrections\<close>

text \<open>
  Claim C7 at a concrete input. For a path that does not end in \<^verbatim>\<open>.dat\<close> the
  constructor reaches its \<^verbatim>\<open>raise\<close> of a string, and what the caller receives is
  a \<open>TypeError\<close>.
\<close>

theorem Datfile_init_wrong_extension:
  "(Datfile_init demo_files demo_infs ''obs.txt'' :: py_error + nat Datfile) = Inl TypeError"
  by (simp add: Datfile_init_def endswith_def)

text \<open>
  Claim C9, as the code has it. For metadata with telescope \<^verbatim>\<open>GBT\<close>, instrument
  \<^verbatim>\<open>spigot\<close>, channel width \<open>800 / 1024\<close>, epoch 50000 and a sample interval
  \<open>dt \<ge> 0\<close> whose remainder modulo \<open>8.192e-05\<close> is below \<open>1e-12\<close>, the correction
  subtracts half a channel width from \<open>lofreq\<close>, adds \<open>0.039365 / 86400\<close> to the
  epoch and changes nothing else.
\<close>

theorem correct_infdata_spigot:
  assumes "inf_telescope info = ''GBT''" and "inf_instrument info = ''spigot''"
    and "inf_chan_width info = 800 / 1024" and "inf_epoch info = Some 50000"
    and "0 \<le> inf_dt info" and "np_fmod (inf_dt info) (8192 / 100000000) < 1 / 10 ^ 12"
  shows "correct_infdata info =
           (Inr (), info\<lparr>inf_lofreq := inf_lofreq info - 0.5 * inf_chan_width info,
                          inf_epoch := Some (50000 + 39365 / 1000000 / 86400)\<rparr>)"
  using assms
  by (simp add: correct_infdata_def add_epoch_if_positive_def np_fabs_def lower_spigot
      str_in_spigot)

text \<open>With the Spigot's own sample interval of 81.92 microseconds.\<close>

theorem correct_infdata_spigot_witness:
  "correct_infdata (spigot_inf (8192 / 100000000)) =
     (Inr (), (spigot_inf (8192 / 100000000))\<lparr>inf_lofreq := 1400 - 0.5 * (800 / 1024),
        inf_epoch := Some (50000 + 39365 / 1000000 / 86400)\<rparr>)"
  using correct_infdata_spigot [of "spigot_inf (8192 / 100000000)"]
  by (simp add: spigot_inf_def np_fmod_def)

text \<open>
  With a sample interval of one millisecond the guard on the sample interval fails
  (the remainder is \<open>1.696e-05\<close>) and the metadata is left as loaded.
\<close>

theorem correct_infdata_spigot_millisecond:
  "inf_telescope (spigot_inf (1 / 1000)) = ''GBT'' \<and>
   inf_instrument (spigot_inf (1 / 1000)) = ''spigot'' \<and>
   inf_chan_width (spigot_inf (1 / 1000)) = 800 / 1024 \<and>
   inf_epoch (spigot_inf (1 / 1000)) = Some 50000 \<and>
   correct_infdata (spigot_inf (1 / 1000)) = (Inr (), spigot_inf (1 / 1000))"
  by (simp add: spigot_inf_def correct_infdata_def np_fmod_def np_fabs_def)

section \<open>The pulse generator\<close>

text \<open>
  Claim C8. Without an epoch the first thing the generator does is raise
  \<open>NotImplementedError\<close>: the reader is exactly as before, nothing was rewound,
  skipped or read, and draining the generator gives that error and no pulse. With an
  epoch the generator never ends in \<open>NotImplementedError\<close>, neither before its first
  pulse nor later.
\<close>

theorem pulses_needs_epoch:
  "(\<not> has_epoch st \<longrightarrow>
      pulses_start p skip st = (Inl NotImplementedError, st) \<and>
      pulses p (Suc fuel) skip st = Some (Inl NotImplementedError, st)) \<and>
   (has_epoch st \<longrightarrow>
      fst (pulses_start p skip st) \<noteq> Inl NotImplementedError \<and>
      (\<forall>r. pulses p fuel skip st = Some r \<longrightarrow> fst r \<noteq> Inl NotImplementedError))"
proof (intro conjI impI allI)
  assume "\<not> has_epoch st"
  then show "pulses_start p skip st = (Inl NotImplementedError, st)"
    by (simp add: pulses_start_def)
  then show "pulses p (Suc fuel) skip st = Some (Inl NotImplementedError, st)"
    by (simp add: pulses_def)
next
  assume e: "has_epoch st"
  then show "fst (pulses_start p skip st) \<noteq> Inl NotImplementedError"
    by (rule pulses_start_error)
  fix r assume "pulses p fuel skip st = Some r"
  then show "fst r \<noteq> Inl NotImplementedError"
    using pulses_rest_error [OF pulses_start_error [OF e]] by (simp add: pulses_def)
qed

text \<open>On the example reader, without and with its epoch.\<close>

theorem pulses_needs_epoch_witness:
  "\<not> has_epoch demo_reader_no_epoch \<and>
   pulses_start (constant_period 2) 0 demo_reader_no_epoch
     = (Inl NotImplementedError, demo_reader_no_epoch) \<and>
   pulses (constant_period 2) (Suc 0) 0 demo_reader_no_epoch
     = Some (Inl NotImplementedError, demo_reader_no_epoch) \<and>
   has_epoch demo_reader \<and>
   fst (pulses_start (constant_period 2) 0 demo_reader) \<noteq> Inl NotImplementedError"
  using pulses_needs_epoch [of demo_reader_no_epoch "constant_period 2" 0 0]
    pulses_needs_epoch [of demo_reader "constant_period 2" 0 0]
  by (simp add: has_epoch_def demo_reader_no_epoch_def demo_reader_fields demo_inf_fields)

text \<open>
  Claim C6, as the code has it. Take a reader with a positive sample interval \<open>dt\<close>,
  an epoch and a file that holds its \<open>N\<close> samples, and a constant period \<open>P > 0\<close>
  with nothing skipped.

  Read by read: whenever the drained generator returns, its pulses are numbered
  \<open>1, 2, \<dots>\<close> in order. Pulse \<open>i + 1\<close> is the block that \<open>read_Tseconds P\<close> returns
  in the state the \<open>i\<close> reads before it left; it holds
  \<open>np_round ((currtime_desired + P) / dt) - currsample\<close> samples, the values being those
  of that state, and the read moves the desired time on by \<open>P\<close> and the sample counter
  to that rounded end sample. The generator stops in the first state in which the read
  gives \<open>None\<close>.

  In exact arithmetic, where the desired time after \<open>k\<close> reads is \<open>k * P\<close> with no
  rounding error: write \<open>g k\<close> for \<open>np_round (k * P / dt)\<close>. There is an \<open>m\<close> with
  \<open>g m \<le> N < g (m + 1)\<close> (or \<open>m = 0\<close> and \<open>N < g 1\<close>), and for each such \<open>m\<close>
  the generator, once drained, has produced exactly \<open>m\<close> pulses, the \<open>k\<close>-th with
  \<open>g k - g (k - 1)\<close> samples.
\<close>

theorem pulses_constant_period:
  assumes "0 < inf_dt (infdata st)" and "0 < P" and "has_epoch st"
    and "inf_N (infdata st) \<le> int (length (datfile st))"
  shows "(\<forall>fuel ps st'.
            pulses (constant_period P) fuel 0 st = Some (Inr ps, st') \<longrightarrow>
            st' = pulse_state P (length ps) st \<and>
            map pulse_number ps = map (\<lambda>i. int i + 1) [0..<length ps] \<and>
            (\<forall>i < length ps.
               read_Tseconds P (pulse_state P i st)
                 = (Inr (Some (pulse_profile (ps ! i))), pulse_state P (Suc i) st) \<and>
               int (length (pulse_profile (ps ! i))) =
                 np_round ((currtime_desired (pulse_state P i st) + P) / inf_dt (infdata st))
                 - currsample (pulse_state P i st) \<and>
               currtime_desired (pulse_state P (Suc i) st)
                 = currtime_desired (pulse_state P i st) + P \<and>
               currsample (pulse_state P (Suc i) st)
                 = np_round ((currtime_desired (pulse_state P i st) + P)
                             / inf_dt (infdata st))) \<and>
            read_Tseconds P st' = (Inr None, st')) \<and>
         (\<exists>m::nat. (m = 0 \<or> np_round (of_nat m * P / inf_dt (infdata st)) \<le> inf_N (infdata st)) \<and>
            inf_N (infdata st) < np_round (of_nat (Suc m) * P / inf_dt (infdata st))) \<and>
         (\<forall>m fuel.
            (m = 0 \<or> np_round (of_nat m * P / inf_dt (infdata st)) \<le> inf_N (infdata st)) \<and>
            inf_N (infdata st) < np_round (of_nat (Suc m) * P / inf_dt (infdata st)) \<and>
            m < fuel \<longrightarrow>
            (\<exists>ps st'.
               pulses (constant_period P) fuel 0 st = Some (Inr ps, st') \<and>
               length ps = m \<and>
               map pulse_number ps = map (\<lambda>i. int i + 1) [0..<m] \<and>
               map (\<lambda>p. int (length (pulse_profile p))) ps =
                 map (\<lambda>i. np_round (of_nat (Suc i) * P / inf_dt (infdata st))
                          - np_round (of_nat i * P / inf_dt (infdata st))) [0..<m] \<and>
               read_Tseconds P st' = (Inr None, st')))"
proof (intro conjI)
  have P0: "0 \<le> P" using assms(2) by simp
  show "\<forall>fuel ps st'.
            pulses (constant_period P) fuel 0 st = Some (Inr ps, st') \<longrightarrow>
            st' = pulse_state P (length ps) st \<and>
            map pulse_number ps = map (\<lambda>i. int i + 1) [0..<length ps] \<and>
            (\<forall>i < length ps.
               read_Tseconds P (pulse_state P i st)
                 = (Inr (Some (pulse_profile (ps ! i))), pulse_state P (Suc i) st) \<and>
               int (length (pulse_profile (ps ! i))) =
                 np_round ((currtime_desired (pulse_state P i st) + P) / inf_dt (infdata st))
                 - currsample (pulse_state P i st) \<and>
               currtime_desired (pulse_state P (Suc i) st)
                 = currtime_desired (pulse_state P i st) + P \<and>
               currsample (pulse_state P (Suc i) st)
                 = np_round ((currtime_desired (pulse_state P i st) + P)
                             / inf_dt (infdata st))) \<and>
            read_Tseconds P st' = (Inr None, st')"
    using pulses_constant_steps [OF assms(1) P0 assms(3,4)] by blast
  show "\<exists>m::nat. (m = 0 \<or> np_round (of_nat m * P / inf_dt (infdata st)) \<le> inf_N (infdata st)) \<and>
            inf_N (infdata st) < np_round (of_nat (Suc m) * P / inf_dt (infdata st))"
    by (rule bracket_exists [OF assms(1,2)])
  show "\<forall>m fuel.
            (m = 0 \<or> np_round (of_nat m * P / inf_dt (infdata st)) \<le> inf_N (infdata st)) \<and>
            inf_N (infdata st) < np_round (of_nat (Suc m) * P / inf_dt (infdata st)) \<and>
            m < fuel \<longrightarrow>
            (\<exists>ps st'.
               pulses (constant_period P) fuel 0 st = Some (Inr ps, st') \<and>
               length ps = m \<and>
               map pulse_number ps = map (\<lambda>i. int i + 1) [0..<m] \<and>
               map (\<lambda>p. int (length (pulse_profile p))) ps =
                 map (\<lambda>i. np_round (of_nat (Suc i) * P / inf_dt (infdata st))
                          - np_round (of_nat i * P / inf_dt (infdata st))) [0..<m] \<and>
               read_Tseconds P st' = (Inr None, st'))"
    using pulses_constant [OF assms] by blast
qed

text \<open>
  On the example: ten samples, one a second, and a period of 2.5 s give four pulses of
  2, 3, 3 and 2 samples; the first read ends at sample 2 with the desired time at 2.5.
\<close>

theorem pulses_constant_period_witness:
  "\<exists>ps st'.
      pulses (constant_period (5 / 2)) 5 0 demo_reader = Some (Inr ps, st') \<and>
      length ps = 4 \<and>
      map pulse_number ps = [1, 2, 3, 4] \<and>
      map (\<lambda>p. int (length (pulse_profile p))) ps = [2, 3, 3, 2] \<and>
      read_Tseconds (5 / 2) st' = (Inr None, st') \<and>
      st' = pulse_state (5 / 2) 4 demo_reader \<and>
      read_Tseconds (5 / 2) (pulse_state (5 / 2) 0 demo_reader)
        = (Inr (Some (pulse_profile (ps ! 0))), pulse_state (5 / 2) 1 demo_reader) \<and>
      currtime_desired (pulse_state (5 / 2) 1 demo_reader) = 5 / 2 \<and>
      currsample (pulse_state (5 / 2) 1 demo_reader) = 2"
proof -
  have pre: "0 < inf_dt (infdata demo_reader)" "(0::real) < 5 / 2" "has_epoch demo_reader"
    "inf_N (infdata demo_reader) \<le> int (length (datfile demo_reader))"
    by (simp_all add: demo_reader_fields demo_inf_fields has_epoch_def)
  note th = pulses_constant_period [OF pre]
  from th [THEN conjunct2, THEN conjunct2, rule_format, of 4 5]
  obtain ps st' where
    run: "pulses (constant_period (5 / 2)) 5 0 demo_reader = Some (Inr ps, st')"
    and n: "length ps = 4" and nums: "map pulse_number ps = [1, 2, 3, 4]"
    and sizes: "map (\<lambda>p. int (length (pulse_profile p))) ps = [2, 3, 3, 2]"
    and fin: "read_Tseconds (5 / 2) st' = (Inr None, st')"
    unfolding upt_values
    by (auto simp add: demo_reader_fields demo_inf_fields np_round_halves np_round_0)
  note steps = th [THEN conjunct1, rule_format, OF run]
  have end4: "st' = pulse_state (5 / 2) 4 demo_reader"
    using steps n by simp
  have zero: "currtime_desired (pulse_state (5 / 2) 0 demo_reader) = 0"
    by (simp add: pulse_state_def rewind_fields)
  have "0 < length ps" using n by simp
  with steps have first:
    "read_Tseconds (5 / 2) (pulse_state (5 / 2) 0 demo_reader)
       = (Inr (Some (pulse_profile (ps ! 0))), pulse_state (5 / 2) (Suc 0) demo_reader) \<and>
     currtime_desired (pulse_state (5 / 2) (Suc 0) demo_reader)
       = currtime_desired (pulse_state (5 / 2) 0 demo_reader) + 5 / 2 \<and>
     currsample (pulse_state (5 / 2) (Suc 0) demo_reader)
       = np_round ((currtime_desired (pulse_state (5 / 2) 0 demo_reader) + 5 / 2)
                   / inf_dt (infdata demo_reader))"
    by blast
  then have "read_Tseconds (5 / 2) (pulse_state (5 / 2) 0 demo_reader)
        = (Inr (Some (pulse_profile (ps ! 0))), pulse_state (5 / 2) 1 demo_reader) \<and>
      currtime_desired (pulse_state (5 / 2) 1 demo_reader) = 5 / 2 \<and>
      currsample (pulse_state (5 / 2) 1 demo_reader) = 2"
    by (simp add: zero demo_reader_fields demo_inf_fields np_round_halves)
  with run n nums sizes fin end4 show ?thesis
    by (intro exI [of _ ps] exI [of _ st']) (simp only: simp_thms)
qed

text \<open>
  On the same file a period of 3.5 s gives three pulses of 4, 3 and 3 samples. That is
  one pulse more than \<open>\<lfloor>N * dt / P\<rfloor> = 2\<close>, and the second pulse, which is not the
  last, has 3 samples where \<open>np_round (P / dt) = 4\<close>.
\<close>

theorem pulses_constant_period_counts:
  "pulse_sizes (pulses (constant_period (7 / 2)) 4 0 demo_reader) = Some [4, 3, 3] \<and>
   \<lfloor>of_int (inf_N (infdata demo_reader)) * inf_dt (infdata demo_reader) / (7 / 2)\<rfloor> = 2 \<and>
   np_round (7 / 2 / inf_dt (infdata demo_reader)) = 4"
proof -
  have "\<exists>ps st'.
      pulses (constant_period (7 / 2)) 4 0 demo_reader = Some (Inr ps, st') \<and>
      map (\<lambda>p. int (length (pulse_profile p))) ps = [4, 3, 3]"
    using pulses_constant [of demo_reader "7 / 2" 3 4]
    unfolding upt_values
    by (auto simp add: demo_reader_fields demo_inf_fields has_epoch_def np_round_halves
        np_round_0)
  then have "pulse_sizes (pulses (constant_period (7 / 2)) 4 0 demo_reader) = Some [4, 3, 3]"
    by (auto simp add: pulse_sizes_def)
  then show ?thesis
    by (simp add: demo_reader_fields demo_inf_fields np_round_halves)
qed

section \<open>The position invariant\<close>

text \<open>
  Claim C4, as the code has it. The invariant \<open>0 \<le> currsample \<le> N\<close> holds after
  construction when \<open>N\<close> is not negative, and a reader that satisfies it still does
  after \<open>rewind\<close> and \<open>read_all\<close>; after \<open>read_Nsamples n\<close> for \<open>n \<ge> 0\<close>;
  after \<open>read_to t\<close> for \<open>t = - 1\<close> or a \<open>t\<close> not before the current sample; after
  \<open>read_Tseconds T\<close> when the rounded end sample is not before the current sample;
  after \<open>seek_to T\<close> when \<open>np_round (T / dt) \<le> N\<close>; and, for a positive sample
  interval, after a baseline estimation with a span that is not negative and after a
  drained pulse iteration whose periods are not negative.
\<close>

theorem sample_inv_preserved:
  "(Datfile_init files infs fn = Inr st0 \<and> 0 \<le> inf_N (infdata st0) \<longrightarrow> sample_inv st0) \<and>
   (sample_inv st \<longrightarrow>
      sample_inv (rewind st) \<and>
      sample_inv (snd (read_all st)) \<and>
      (0 \<le> n \<longrightarrow> sample_inv (snd (read_Nsamples n st))) \<and>
      (t = - 1 \<or> currsample st \<le> t \<longrightarrow> sample_inv (snd (read_to t st))) \<and>
      (currsample st \<le> np_round ((currtime_desired st + T) / inf_dt (infdata st)) \<longrightarrow>
         sample_inv (snd (read_Tseconds T st))) \<and>
      (np_round (Ts / inf_dt (infdata st)) \<le> inf_N (infdata st) \<longrightarrow>
         sample_inv (snd (seek_to Ts st))) \<and>
      (0 < inf_dt (infdata st) \<and> 0 \<le> spn \<longrightarrow>
         (\<forall>r st'. get_baseline_spline median fuel spn st = Some (r, st') \<longrightarrow> sample_inv st')) \<and>
      (0 < inf_dt (infdata st) \<and> (\<forall>mjd. 0 \<le> p mjd) \<longrightarrow>
         (\<forall>r st'. pulses p fuel skip st = Some (r, st') \<longrightarrow> sample_inv st')))"
proof (intro conjI impI allI)
  assume "Datfile_init files infs fn = Inr st0 \<and> 0 \<le> inf_N (infdata st0)"
  then obtain x where "st0 = rewind x" and "0 \<le> inf_N (infdata (rewind x))"
    using Datfile_init_rewound by blast
  then show "sample_inv st0"
    by (simp add: sample_inv_def rewind_fields)
next
  assume inv: "sample_inv st"
  then have N: "0 \<le> inf_N (infdata st)" by (simp add: sample_inv_def)
  show "sample_inv (rewind st)"
    using N by (simp add: sample_inv_def rewind_fields)
  show "sample_inv (snd (read_all st))"
    using N by (simp add: read_all_def sample_inv_def Datfile_read_fields rewind_fields)
  show "sample_inv (snd (read_Nsamples n st))" if "0 \<le> n"
    using inv that by (simp add: sample_inv_def read_Nsamples_fields)
  show "sample_inv (snd (read_to t st))" if "t = - 1 \<or> currsample st \<le> t"
    using inv that by (auto simp add: read_to_def sample_inv_def read_Nsamples_fields)
  show "sample_inv (snd (read_Tseconds T st))"
    if "currsample st \<le> np_round ((currtime_desired st + T) / inf_dt (infdata st))"
    using inv that by (simp add: sample_inv_def read_Tseconds_fields)
  show "sample_inv (snd (seek_to Ts st))"
    if "np_round (Ts / inf_dt (infdata st)) \<le> inf_N (infdata st)"
    using N that by (simp add: sample_inv_def seek_to_fields)
  show "sample_inv st'"
    if "0 < inf_dt (infdata st) \<and> 0 \<le> spn"
      and "get_baseline_spline median fuel spn st = Some (r, st')" for r st'
    using tracked_get_baseline_spline [OF inv _ _ that(2)] that(1) by simp
  show "sample_inv st'"
    if "0 < inf_dt (infdata st) \<and> (\<forall>mjd. 0 \<le> p mjd)"
      and "pulses p fuel skip st = Some (r, st')" for r st'
    using tracked_pulses [OF inv _ _ that(2)] that(1) by simp
qed

text \<open>Every part on the example reader.\<close>

theorem sample_inv_preserved_witness:
  "sample_inv demo_reader \<and>
   sample_inv (rewind demo_reader) \<and>
   sample_inv (snd (read_all demo_reader)) \<and>
   sample_inv (snd (read_Nsamples 3 demo_reader)) \<and>
   sample_inv (snd (read_to 7 demo_reader)) \<and>
   sample_inv (snd (read_Tseconds (5 / 2) demo_reader)) \<and>
   sample_inv (snd (seek_to 2 demo_reader)) \<and>
   (\<exists>r st'. get_baseline_spline block_median 3 5 demo_reader = Some (r, st') \<and>
      sample_inv st') \<and>
   (\<exists>r st'. pulses (constant_period (5 / 2)) 5 0 demo_reader = Some (r, st') \<and>
      sample_inv st')"
proof -
  note th = sample_inv_preserved [where files = demo_files and infs = demo_infs and fn = "''obs.dat''"
      and ?st0.0 = demo_reader and st = demo_reader and n = 3 and t = 7 and T = "5 / 2"
      and Ts = 2 and spn = 5 and median = block_median and p = "constant_period (5 / 2)"
      and skip = 0]
  have inv: "sample_inv demo_reader"
    using th [of 0, THEN conjunct1] demo_reader_constructed
    by (simp add: demo_reader_fields demo_inf_fields)
  have ops: "sample_inv (rewind demo_reader) \<and>
      sample_inv (snd (read_all demo_reader)) \<and>
      sample_inv (snd (read_Nsamples 3 demo_reader)) \<and>
      sample_inv (snd (read_to 7 demo_reader)) \<and>
      sample_inv (snd (read_Tseconds (5 / 2) demo_reader)) \<and>
      sample_inv (snd (seek_to 2 demo_reader))"
    using th [of 0, THEN conjunct2] inv
    by (simp add: demo_reader_fields demo_inf_fields np_round_halves np_round_values)
  obtain r1 s1 where b: "get_baseline_spline block_median 3 5 demo_reader = Some (r1, s1)"
    using baseline_demo_runs by blast
  have "sample_inv s1"
    using th [of 3, THEN conjunct2] inv b
    by (simp add: demo_reader_fields demo_inf_fields)
  with b have base: "\<exists>r st'. get_baseline_spline block_median 3 5 demo_reader = Some (r, st') \<and>
      sample_inv st'"
    by blast
  obtain ps s2 where p: "pulses (constant_period (5 / 2)) 5 0 demo_reader = Some (Inr ps, s2)"
    using pulses_constant [of demo_reader "5 / 2" 4 5]
    by (auto simp add: demo_reader_fields demo_inf_fields has_epoch_def np_round_halves)
  have "sample_inv s2"
    using th [of 5, THEN conjunct2] inv p
    by (simp add: demo_reader_fields demo_inf_fields constant_period_def)
  with p have "\<exists>r st'. pulses (constant_period (5 / 2)) 5 0 demo_reader = Some (r, st') \<and>
      sample_inv st'"
    by blast
  with inv ops base show ?thesis by blast
qed

text \<open>
  \<open>seek_to\<close> does not compare its target with the length of the series: on the
  example, which has ten samples one second apart, \<open>seek_to 20\<close> leaves the sample
  counter at 20.
\<close>

theorem seek_to_past_end: "sample_inv demo_reader \<and> \<not> sample_inv (snd (seek_to 20 demo_reader))"
  by (simp add: seek_to_20 sample_inv_def demo_reader_fields demo_inf_fields)

end
